theory Spec2Isabelle
  imports Main "HOL-Library.Sublist"
begin

section \<open>JavaScript library operations used by the sources\<close>

text \<open>
  Strings are lists of characters. The operations below are the library calls the
  sources make on them: \<^verbatim>\<open>Array.prototype.join\<close>, \<^verbatim>\<open>util.format\<close>,
  \<^verbatim>\<open>String.prototype.trim\<close>, \<^verbatim>\<open>toUpperCase\<close>, \<^verbatim>\<open>toLowerCase\<close>,
  \<^verbatim>\<open>startsWith\<close> and \<^verbatim>\<open>replace\<close> with a string pattern.
\<close>

fun join :: "string list \<Rightarrow> string \<Rightarrow> string" where
  "join [] sep = []"
| "join [x] sep = x"
| "join (x # y # ys) sep = x @ sep @ join (y # ys) sep"

text \<open>
  \<^verbatim>\<open>util.format(fmt, ...args)\<close> with string arguments: each \<^verbatim>\<open>%s\<close> is replaced by
  the next argument (left as it is once the arguments are used up), \<^verbatim>\<open>%%\<close> becomes
  \<^verbatim>\<open>%\<close>, every other character is copied (so the unknown directive \<^verbatim>\<open>%L\<close> stays),
  and arguments left over are appended, each after a space. The format strings of
  this program use no directive but \<^verbatim>\<open>%s\<close> and \<^verbatim>\<open>%L\<close>.
\<close>

fun format :: "string \<Rightarrow> string list \<Rightarrow> string" where
  "format [] args = concat (map (\<lambda>a. CHR '' '' # a) args)"
| "format [c] args = c # format [] args"
| "format (c # d # r) args =
     (if c = CHR ''%'' \<and> d = CHR ''s'' then
        (case args of [] \<Rightarrow> c # d # format r [] | a # as \<Rightarrow> a @ format r as)
      else if c = CHR ''%'' \<and> d = CHR ''%'' then c # format r args
      else c # format (d # r) args)"

definition is_space :: "char \<Rightarrow> bool" where
  "is_space c = (c \<in> set [CHR '' '', CHR 0x09, CHR 0x0A, CHR 0x0B, CHR 0x0C, CHR 0x0D])"

definition trim :: "string \<Rightarrow> string" where
  "trim s = rev (dropWhile is_space (rev (dropWhile is_space s)))"

definition lower_letters :: string where
  "lower_letters = ''abcdefghijklmnopqrstuvwxyz''"

definition upper_letters :: string where
  "upper_letters = ''ABCDEFGHIJKLMNOPQRSTUVWXYZ''"

text \<open>Case conversion of the ASCII letters; every other character is kept.\<close>

definition toUpperCase :: "string \<Rightarrow> string" where
  "toUpperCase s =
     map (\<lambda>c. case map_of (zip lower_letters upper_letters) c of Some u \<Rightarrow> u | None \<Rightarrow> c) s"

definition toLowerCase :: "string \<Rightarrow> string" where
  "toLowerCase s =
     map (\<lambda>c. case map_of (zip upper_letters lower_letters) c of Some l \<Rightarrow> l | None \<Rightarrow> c) s"

definition startsWith :: "string \<Rightarrow> string \<Rightarrow> bool" where
  "startsWith s p = prefix p s"

section \<open>Types.ts: the data model\<close>

datatype DBType = MYSQL | POSTGRES | SQLITE

record IForeignKey =
  foreign_table :: string
  foreign_column :: string
  foreign_update :: "string option"
  foreign_delete :: "string option"

text \<open>
  An optional field is an \<open>option\<close>, \<open>None\<close> for \<^verbatim>\<open>undefined\<close>. The default of a
  column (\<^verbatim>\<open>string | number\<close>) is held as the text that the concatenation
  \<^verbatim>\<open>'DEFAULT ' + col.default\<close> appends.
\<close>

record ITableColumn =
  col_name :: string
  col_type :: string
  col_nullable :: "bool option"
  col_foreign :: "IForeignKey option"
  col_unique :: "bool option"
  col_default :: "string option"

record prepared_table =
  table :: string
  indexes :: "string list"

section \<open>Types.ts: prepareCreateTable\<close>

definition l_fields :: "ITableColumn list \<Rightarrow> string list" where
  "l_fields flds =
     map (\<lambda>col. format ''%s %s %s %s''
            [col_name col, col_type col,
             (if col_nullable col \<noteq> Some True then ''NOT NULL'' else ''NULL''),
             (case col_default col of Some d \<Rightarrow> ''DEFAULT '' @ d | None \<Rightarrow> '''')])
       flds"

definition l_unique :: "string \<Rightarrow> ITableColumn list \<Rightarrow> string list" where
  "l_unique name flds =
     map (\<lambda>col. format ''CREATE UNIQUE INDEX IF NOT EXISTS %s_unique_%s ON %s (%s);''
            [name, col_name col, name, col_name col])
       (filter (\<lambda>elem. col_unique elem = Some True) flds)"

definition constraint_fmt :: string where
  "constraint_fmt = '', CONSTRAINT %s_%s_fkey FOREIGN KEY (%s) REFERENCES %s (%s)''"

definition constraint :: "string \<Rightarrow> ITableColumn \<Rightarrow> IForeignKey \<Rightarrow> string" where
  "constraint name field fk =
     (let c0 = format constraint_fmt
                 [name, col_name field, col_name field, foreign_table fk, foreign_column fk];
          c1 = (case foreign_delete fk of
                  Some d \<Rightarrow> if d \<noteq> [] then c0 @ format '' ON DELETE %s'' [toUpperCase d] else c0
                | None \<Rightarrow> c0);
          c2 = (case foreign_update fk of
                  Some u \<Rightarrow> if u \<noteq> [] then c1 @ format '' ON UPDATE %s'' [toUpperCase u] else c1
                | None \<Rightarrow> c1)
      in c2)"

fun l_constraints :: "string \<Rightarrow> ITableColumn list \<Rightarrow> string list" where
  "l_constraints name [] = []"
| "l_constraints name (field # flds) =
     (case col_foreign field of
        Some fk \<Rightarrow> constraint name field fk # l_constraints name flds
      | None \<Rightarrow> l_constraints name flds)"

definition prepareCreateTable ::
  "DBType \<Rightarrow> string \<Rightarrow> ITableColumn list \<Rightarrow> string list \<Rightarrow> string option \<Rightarrow> prepared_table"
where
  "prepareCreateTable dbType name flds primaryKey tableOptions =
     \<lparr> table = trim (format ''CREATE TABLE IF NOT EXISTS %s (%s, PRIMARY KEY (%s)%s) %s;''
                 [name, join (l_fields flds) '', '', join primaryKey '','',
                  join (l_constraints name flds) '','',
                  (case tableOptions of Some opts \<Rightarrow> opts | None \<Rightarrow> '''')]),
       indexes = l_unique name flds \<rparr>"

text \<open>
  The table of the specification's example: \<^verbatim>\<open>accounts\<close> with the columns \<^verbatim>\<open>id\<close>
  (not unique) and \<^verbatim>\<open>email\<close> (unique). The column types are the strings a backend's
  \<^verbatim>\<open>uint64Type\<close> and \<^verbatim>\<open>blobType\<close> return.
\<close>

definition accounts_columns :: "string \<Rightarrow> string \<Rightarrow> ITableColumn list" where
  "accounts_columns uint64Type blobType =
     [\<lparr>col_name = ''id'', col_type = uint64Type, col_nullable = None, col_foreign = None,
        col_unique = Some False, col_default = None\<rparr>,
      \<lparr>col_name = ''email'', col_type = blobType, col_nullable = None, col_foreign = None,
        col_unique = Some True, col_default = None\<rparr>]"

text \<open>
  \<^verbatim>\<open>s.replace(pattern, replacement)\<close> with a string pattern replaces the first occurrence
  of the pattern. In the replacement text \<^verbatim>\<open>$$\<close> stands for \<^verbatim>\<open>$\<close>, \<^verbatim>\<open>$&\<close> for the
  matched text, \<^verbatim>\<open>$`\<close> for the text before the match and \<^verbatim>\<open>$'\<close> for the text after
  it; any other \<^verbatim>\<open>$\<close> is copied (a string pattern has no capture groups).
\<close>

fun search :: "string \<Rightarrow> string \<Rightarrow> (string \<times> string) option" where
  "search pat [] = (if pat = [] then Some ([], []) else None)"
| "search pat (c # cs) =
     (if prefix pat (c # cs) then Some ([], drop (length pat) (c # cs))
      else (case search pat cs of
              Some (pre, post) \<Rightarrow> Some (c # pre, post)
            | None \<Rightarrow> None))"

fun expand :: "string \<Rightarrow> string \<Rightarrow> string \<Rightarrow> string \<Rightarrow> string" where
  "expand matched pre post [] = []"
| "expand matched pre post [c] = [c]"
| "expand matched pre post (c # d # r) =
     (if c = CHR ''$'' \<and> d = CHR ''$'' then CHR ''$'' # expand matched pre post r
      else if c = CHR ''$'' \<and> d = CHR ''&'' then matched @ expand matched pre post r
      else if c = CHR ''$'' \<and> d = CHR 0x60 then pre @ expand matched pre post r
      else if c = CHR ''$'' \<and> d = CHR 0x27 then post @ expand matched pre post r
      else c # expand matched pre post (d # r))"

definition replace :: "string \<Rightarrow> string \<Rightarrow> string \<Rightarrow> string" where
  "replace s pat replacement =
     (case search pat s of
        None \<Rightarrow> s
      | Some (pre, post) \<Rightarrow> pre @ expand pat pre post replacement @ post)"

section \<open>Values, and the escape function of the mysql driver\<close>

text \<open>
  The values bound to a statement or found in a row: \<^verbatim>\<open>null\<close>, a number, a string or
  a boolean. \<open>JNumber n\<close> stands for the number with the integer value \<open>n\<close>, for \<open>n\<close>
  between \<open>- (2^53 - 1)\<close> and \<open>2^53 - 1\<close> (the safe integers of JavaScript, which it
  holds exactly and writes in decimal); fractions, larger numbers, \<^verbatim>\<open>NaN\<close> and
  \<^verbatim>\<open>Infinity\<close> are not modelled.
\<close>

datatype jsvalue = JNull | JNumber int | JString string | JBoolean bool

type_synonym IValueArray = "jsvalue list list"

text \<open>
  \<^verbatim>\<open>escape\<close> is imported from the \<^verbatim>\<open>mysql\<close> package; the definitions of
  \<^verbatim>\<open>prepareMultiInsert\<close> below take it as a parameter. For the examples,
  \<open>sqlstring_escape\<close> gives what the package documents for an array of arrays:
  each inner array becomes a parenthesised list, the lists are joined by a comma and a
  space, numbers are written as JavaScript writes them (in decimal, for the safe integers
  that \<open>JNumber\<close> stands for) and strings are quoted.
\<close>

fun digits :: "nat \<Rightarrow> string" where
  "digits n =
     (if n < 10 then [''0123456789'' ! n]
      else digits (n div 10) @ [''0123456789'' ! (n mod 10)])"

definition escape_char :: "char \<Rightarrow> string" where
  "escape_char c =
     (if c = CHR 0x00 then [CHR 0x5C, CHR ''0'']
      else if c = CHR 0x08 then [CHR 0x5C, CHR ''b'']
      else if c = CHR 0x09 then [CHR 0x5C, CHR ''t'']
      else if c = CHR 0x0A then [CHR 0x5C, CHR ''n'']
      else if c = CHR 0x0D then [CHR 0x5C, CHR ''r'']
      else if c = CHR 0x1A then [CHR 0x5C, CHR ''Z'']
      else if c = CHR 0x22 then [CHR 0x5C, CHR 0x22]
      else if c = CHR 0x27 then [CHR 0x5C, CHR 0x27]
      else if c = CHR 0x5C then [CHR 0x5C, CHR 0x5C]
      else [c])"

fun escape_value :: "jsvalue \<Rightarrow> string" where
  "escape_value JNull = ''NULL''"
| "escape_value (JNumber n) = (if n < 0 then CHR ''-'' # digits (nat (- n)) else digits (nat n))"
| "escape_value (JString s) = [CHR 0x27] @ concat (map escape_char s) @ [CHR 0x27]"
| "escape_value (JBoolean b) = (if b then ''true'' else ''false'')"

definition sqlstring_escape :: "IValueArray \<Rightarrow> string" where
  "sqlstring_escape rows =
     join (map (\<lambda>row. ''('' @ join (map escape_value row) '', '' @ '')'') rows) '', ''"

section \<open>MySQL.ts and SQLite.ts: prepareMultiInsert and prepareMultiUpdate\<close>

definition MySQL_prepareMultiInsert ::
  "(IValueArray \<Rightarrow> string) \<Rightarrow> string \<Rightarrow> string list \<Rightarrow> IValueArray option \<Rightarrow> string"
where
  "MySQL_prepareMultiInsert escape table_name columns vals =
     (let query = format ''INSERT INTO %s (%s) VALUES %L'' [table_name, join columns '','']
      in case vals of
           Some rows \<Rightarrow> replace query ''%L'' (escape rows)
         | None \<Rightarrow> query)"

fun MySQL_updates :: "string list \<Rightarrow> string list" where
  "MySQL_updates [] = []"
| "MySQL_updates (column # columns) =
     format '' %s = VALUES(%s)'' [column, column] # MySQL_updates columns"

definition MySQL_prepareMultiUpdate ::
  "(IValueArray \<Rightarrow> string) \<Rightarrow> string \<Rightarrow> string list \<Rightarrow> string list \<Rightarrow> IValueArray option
   \<Rightarrow> string"
where
  "MySQL_prepareMultiUpdate escape table_name primaryKey columns vals =
     (let query = MySQL_prepareMultiInsert escape table_name (primaryKey @ columns) vals
      in format ''%s ON DUPLICATE KEY UPDATE %s'' [query, join (MySQL_updates columns) '',''])"

definition SQLite_prepareMultiInsert ::
  "(IValueArray \<Rightarrow> string) \<Rightarrow> string \<Rightarrow> string list \<Rightarrow> IValueArray option \<Rightarrow> string"
where
  "SQLite_prepareMultiInsert escape table_name columns vals =
     (let query = format ''INSERT INTO %s (%s) %L'' [table_name, join columns '','']
      in case vals of
           Some rows \<Rightarrow> replace query ''%L'' (escape rows)
         | None \<Rightarrow> query)"

fun SQLite_updates :: "string list \<Rightarrow> string list" where
  "SQLite_updates [] = []"
| "SQLite_updates (column # columns) =
     format '' %s = excluded.%s'' [column, column] # SQLite_updates columns"

definition SQLite_prepareMultiUpdate ::
  "(IValueArray \<Rightarrow> string) \<Rightarrow> string \<Rightarrow> string list \<Rightarrow> string list \<Rightarrow> IValueArray option
   \<Rightarrow> string"
where
  "SQLite_prepareMultiUpdate escape table_name primaryKey columns vals =
     (let query = SQLite_prepareMultiInsert escape table_name (primaryKey @ columns) vals
      in format ''%s ON CONFLICT (%s) DO UPDATE SET %s''
           [query, join primaryKey '','', join (SQLite_updates columns) '',''])"

section \<open>Errors, rows, results and promises\<close>

text \<open>
  An error is an \<^verbatim>\<open>Error\<close> object with its message, or the \<^verbatim>\<open>TypeError\<close> that
  reading a property of \<^verbatim>\<open>undefined\<close> throws. A row is an object: a map from column
  names to values, \<open>None\<close> for a property the object does not have.
\<close>

datatype error = Error string | TypeError

type_synonym row = "string \<Rightarrow> jsvalue option"

type_synonym IQueryResult = "int \<times> row list"

record IBulkQuery =
  bulk_query :: string
  bulk_values :: "jsvalue list option"

text \<open>How a promise is settled: resolved with a value or rejected with an error.\<close>

datatype 'a settlement = Resolved 'a | Rejected error

section \<open>The sqlite3 driver\<close>

text \<open>
  The \<^verbatim>\<open>Database\<close> object of the \<^verbatim>\<open>sqlite3\<close> package is a parameter of the model. Its
  state has the type \<open>'db\<close>; \<^verbatim>\<open>run\<close>, \<^verbatim>\<open>all\<close> and \<^verbatim>\<open>close\<close> take the state and return
  what the driver passes to the callback, with the new state. \<^verbatim>\<open>run\<close> passes an error or
  the statement's \<^verbatim>\<open>lastID\<close> and \<^verbatim>\<open>changes\<close>, \<^verbatim>\<open>all\<close> an error or the rows.
\<close>

record RunResult =
  lastID :: int
  changes :: int

record 'db Database =
  db_run :: "'db \<Rightarrow> string \<Rightarrow> jsvalue list option \<Rightarrow> (error + RunResult) \<times> 'db"
  db_all :: "'db \<Rightarrow> string \<Rightarrow> jsvalue list option \<Rightarrow> (error + row list) \<times> 'db"
  db_close :: "'db \<Rightarrow> error option \<times> 'db"

section \<open>SQLite.ts: the functions of the module\<close>

text \<open>
  \<^verbatim>\<open>beginTransaction\<close>, \<^verbatim>\<open>commit\<close>, \<^verbatim>\<open>query\<close> and \<^verbatim>\<open>rollback\<close> of SQLite.ts. Each
  returns \<open>Some err\<close> when its promise is rejected and \<open>None\<close> when it is resolved.
\<close>

definition sqlite_beginTransaction :: "'db Database \<Rightarrow> 'db \<Rightarrow> error option \<times> 'db" where
  "sqlite_beginTransaction connection db =
     (case db_run connection db ''BEGIN TRANSACTION'' None of
        (Inl err, db') \<Rightarrow> (Some err, db')
      | (Inr _, db') \<Rightarrow> (None, db'))"

definition sqlite_commit :: "'db Database \<Rightarrow> 'db \<Rightarrow> error option \<times> 'db" where
  "sqlite_commit connection db =
     (case db_run connection db ''COMMIT'' None of
        (Inl err, db') \<Rightarrow> (Some err, db')
      | (Inr _, db') \<Rightarrow> (None, db'))"

definition sqlite_query ::
  "'db Database \<Rightarrow> 'db \<Rightarrow> string \<Rightarrow> jsvalue list option \<Rightarrow> error option \<times> 'db"
where
  "sqlite_query connection db query vals =
     (case db_run connection db query (Some (case vals of Some vs \<Rightarrow> vs | None \<Rightarrow> [])) of
        (Inl err, db') \<Rightarrow> (Some err, db')
      | (Inr _, db') \<Rightarrow> (None, db'))"

definition sqlite_rollback :: "'db Database \<Rightarrow> 'db \<Rightarrow> error option \<times> 'db" where
  "sqlite_rollback connection db =
     (case db_run connection db ''ROLLBACK'' None of
        (Inl err, db') \<Rightarrow> (Some err, db')
      | (Inr _, db') \<Rightarrow> (None, db'))"

section \<open>SQLite.ts: the class SQLite\<close>

text \<open>
  A queue entry carries its callback. The callback of an entry settles the promise that
  \<^verbatim>\<open>query\<close> or \<^verbatim>\<open>transaction\<close> returned to the caller; the model names that promise by a
  handle of type \<open>'h\<close> and records every call of a callback, in order, in the field
  \<open>settled\<close> of the state.
\<close>

record 'h ICallback =
  callback :: 'h

record 'h ITransactionQueueEntry = "'h ICallback" +
  queries :: "IBulkQuery list"

record 'h IQueryQueueEntry = "'h ICallback" +
  entry_query :: string
  entry_values :: "jsvalue list option"

record ('h, 'db) SQLite =
  m_db :: 'db
  m_timer_paused :: bool
  m_transactionQueue :: "'h ITransactionQueueEntry list"
  m_runQueue :: "'h IQueryQueueEntry list"
  m_allQueue :: "'h IQueryQueueEntry list"
  settled :: "('h \<times> IQueryResult option settlement) list"

definition call_callback ::
  "'h \<Rightarrow> IQueryResult option settlement \<Rightarrow> ('h, 'db) SQLite \<Rightarrow> ('h, 'db) SQLite"
where
  "call_callback h outcome st = st\<lparr>settled := settled st @ [(h, outcome)]\<rparr>"

text \<open>The private methods \<^verbatim>\<open>all\<close> and \<^verbatim>\<open>run\<close>.\<close>

definition SQLite_all ::
  "'db Database \<Rightarrow> 'db \<Rightarrow> string \<Rightarrow> jsvalue list option \<Rightarrow> (error + IQueryResult) \<times> 'db"
where
  "SQLite_all drv db query vals =
     (case db_all drv db query vals of
        (Inl err, db') \<Rightarrow> (Inl err, db')
      | (Inr rows, db') \<Rightarrow> (Inr (int (length rows), rows), db'))"

definition SQLite_run ::
  "'db Database \<Rightarrow> 'db \<Rightarrow> string \<Rightarrow> jsvalue list option \<Rightarrow> (error + IQueryResult) \<times> 'db"
where
  "SQLite_run drv db query vals =
     (case db_run drv db query vals of
        (Inl err, db') \<Rightarrow> (Inl err, db')
      | (Inr this, db') \<Rightarrow>
          (let count =
             (if startsWith (toLowerCase query) ''insert'' then lastID this
              else if startsWith (toLowerCase query) ''update'' \<or>
                      startsWith (toLowerCase query) ''delete'' then changes this
              else 0)
           in (Inr (count, []), db')))"

text \<open>
  The methods \<^verbatim>\<open>query\<close> and \<^verbatim>\<open>transaction\<close> push an entry on a queue and return the
  promise \<open>h\<close>, still pending.
\<close>

definition SQLite_query ::
  "'h \<Rightarrow> string \<Rightarrow> jsvalue list option \<Rightarrow> ('h, 'db) SQLite \<Rightarrow> ('h, 'db) SQLite"
where
  "SQLite_query h query vals st =
     (if startsWith (toLowerCase query) ''select'' then
        st\<lparr>m_allQueue := m_allQueue st @
             [\<lparr>callback = h, entry_query = query, entry_values = vals\<rparr>]\<rparr>
      else
        st\<lparr>m_runQueue := m_runQueue st @
             [\<lparr>callback = h, entry_query = query, entry_values = vals\<rparr>]\<rparr>)"

definition SQLite_transaction ::
  "'h \<Rightarrow> IBulkQuery list \<Rightarrow> ('h, 'db) SQLite \<Rightarrow> ('h, 'db) SQLite"
where
  "SQLite_transaction h qs st =
     st\<lparr>m_transactionQueue := m_transactionQueue st @ [\<lparr>callback = h, queries = qs\<rparr>]\<rparr>"

subsection \<open>The tick handler\<close>

text \<open>
  The \<^verbatim>\<open>for\<close> loop over the statements of a queued transaction: it stops at the first
  statement that is rejected.
\<close>

fun run_queries :: "'db Database \<Rightarrow> 'db \<Rightarrow> IBulkQuery list \<Rightarrow> error option \<times> 'db" where
  "run_queries connection db [] = (None, db)"
| "run_queries connection db (q # qs) =
     (case sqlite_query connection db (bulk_query q) (bulk_values q) of
        (Some err, db') \<Rightarrow> (Some err, db')
      | (None, db') \<Rightarrow> run_queries connection db' qs)"

text \<open>
  The statements of the \<^verbatim>\<open>try\<close> block before the callback: \<open>Some e\<close> is the error
  that the \<^verbatim>\<open>catch\<close> clause receives.
\<close>

definition try_transaction ::
  "'db Database \<Rightarrow> 'db \<Rightarrow> IBulkQuery list \<Rightarrow> error option \<times> 'db"
where
  "try_transaction connection db qs =
     (case sqlite_beginTransaction connection db of
        (Some e, db1) \<Rightarrow> (Some e, db1)
      | (None, db1) \<Rightarrow>
          (case run_queries connection db1 qs of
             (Some e, db2) \<Rightarrow> (Some e, db2)
           | (None, db2) \<Rightarrow> sqlite_commit connection db2))"

text \<open>
  The body of the first \<^verbatim>\<open>while\<close> loop for the entry taken off the queue. The
  \<^verbatim>\<open>catch\<close> clause awaits \<^verbatim>\<open>rollback\<close> before it calls the callback; when the rollback is
  rejected, its error leaves the handler (the result \<open>Some e'\<close>) and the callback is
  not called.
\<close>

definition transaction_body ::
  "'db Database \<Rightarrow> 'h ITransactionQueueEntry \<Rightarrow> ('h, 'db) SQLite
   \<Rightarrow> error option \<times> ('h, 'db) SQLite"
where
  "transaction_body drv queuedTransaction st =
     (case try_transaction drv (m_db st) (queries queuedTransaction) of
        (None, db') \<Rightarrow>
          (None, call_callback (callback queuedTransaction) (Resolved None) (st\<lparr>m_db := db'\<rparr>))
      | (Some e, db') \<Rightarrow>
          (case sqlite_rollback drv db' of
             (None, db'') \<Rightarrow>
               (None, call_callback (callback queuedTransaction) (Rejected e) (st\<lparr>m_db := db''\<rparr>))
           | (Some e', db'') \<Rightarrow> (Some e', st\<lparr>m_db := db''\<rparr>)))"

text \<open>The bodies of the second and the third loop.\<close>

definition all_body ::
  "'db Database \<Rightarrow> 'h IQueryQueueEntry \<Rightarrow> ('h, 'db) SQLite \<Rightarrow> ('h, 'db) SQLite"
where
  "all_body drv queue st =
     (case SQLite_all drv (m_db st) (entry_query queue) (entry_values queue) of
        (Inr result, db') \<Rightarrow>
          call_callback (callback queue) (Resolved (Some result)) (st\<lparr>m_db := db'\<rparr>)
      | (Inl e, db') \<Rightarrow> call_callback (callback queue) (Rejected e) (st\<lparr>m_db := db'\<rparr>))"

definition run_body ::
  "'db Database \<Rightarrow> 'h IQueryQueueEntry \<Rightarrow> ('h, 'db) SQLite \<Rightarrow> ('h, 'db) SQLite"
where
  "run_body drv queue st =
     (case SQLite_run drv (m_db st) (entry_query queue) (entry_values queue) of
        (Inr result, db') \<Rightarrow>
          call_callback (callback queue) (Resolved (Some result)) (st\<lparr>m_db := db'\<rparr>)
      | (Inl e, db') \<Rightarrow> call_callback (callback queue) (Rejected e) (st\<lparr>m_db := db'\<rparr>))"

lemma transaction_body_queue:
  "transaction_body drv entry st = (r, st') \<Longrightarrow>
   m_transactionQueue st' = m_transactionQueue st"
  by (auto simp: transaction_body_def call_callback_def split: prod.splits option.splits)

lemma all_body_queue: "m_allQueue (all_body drv entry st) = m_allQueue st"
  by (simp add: all_body_def call_callback_def split: prod.splits sum.splits)

lemma run_body_queue: "m_runQueue (run_body drv entry st) = m_runQueue st"
  by (simp add: run_body_def call_callback_def split: prod.splits sum.splits)

text \<open>
  The three \<^verbatim>\<open>while\<close> loops, run with no other event in between. Each takes the first
  entry off its queue and runs the body, until the queue is empty; the first loop ends
  early when an error leaves the handler.
\<close>

function drain_transactionQueue ::
  "'db Database \<Rightarrow> ('h, 'db) SQLite \<Rightarrow> error option \<times> ('h, 'db) SQLite"
where
  "drain_transactionQueue drv st =
     (case m_transactionQueue st of
        [] \<Rightarrow> (None, st)
      | queuedTransaction # rest \<Rightarrow>
          (case transaction_body drv queuedTransaction (st\<lparr>m_transactionQueue := rest\<rparr>) of
             (Some e, st') \<Rightarrow> (Some e, st')
           | (None, st') \<Rightarrow> drain_transactionQueue drv st'))"
  by pat_completeness auto
termination
  by (relation "measure (\<lambda>(drv, st). length (m_transactionQueue st))")
     (auto dest: transaction_body_queue [OF sym])

function drain_allQueue :: "'db Database \<Rightarrow> ('h, 'db) SQLite \<Rightarrow> ('h, 'db) SQLite" where
  "drain_allQueue drv st =
     (case m_allQueue st of
        [] \<Rightarrow> st
      | queue # rest \<Rightarrow> drain_allQueue drv (all_body drv queue (st\<lparr>m_allQueue := rest\<rparr>)))"
  by pat_completeness auto
termination
  by (relation "measure (\<lambda>(drv, st). length (m_allQueue st))") (auto simp: all_body_queue)

function drain_runQueue :: "'db Database \<Rightarrow> ('h, 'db) SQLite \<Rightarrow> ('h, 'db) SQLite" where
  "drain_runQueue drv st =
     (case m_runQueue st of
        [] \<Rightarrow> st
      | queue # rest \<Rightarrow> drain_runQueue drv (run_body drv queue (st\<lparr>m_runQueue := rest\<rparr>)))"
  by pat_completeness auto
termination
  by (relation "measure (\<lambda>(drv, st). length (m_runQueue st))") (auto simp: run_body_queue)

declare drain_transactionQueue.simps [simp del]
declare drain_allQueue.simps [simp del]
declare drain_runQueue.simps [simp del]

text \<open>
  The handler of the timer's \<^verbatim>\<open>tick\<close> event, run to its end with no other event in
  between. The result \<open>Some e\<close> is an error that left the handler: the rest of the handler
  did not run, and the timer is still paused.
\<close>

definition tick :: "'db Database \<Rightarrow> ('h, 'db) SQLite \<Rightarrow> error option \<times> ('h, 'db) SQLite" where
  "tick drv st =
     (case drain_transactionQueue drv (st\<lparr>m_timer_paused := True\<rparr>) of
        (Some e, st1) \<Rightarrow> (Some e, st1)
      | (None, st1) \<Rightarrow>
          (None, (drain_runQueue drv (drain_allQueue drv st1))\<lparr>m_timer_paused := False\<rparr>))"

subsection \<open>Submitted operations\<close>

text \<open>
  An operation a caller submits: a call of \<^verbatim>\<open>query\<close> or of \<^verbatim>\<open>transaction\<close>, with the
  handle of the promise the call returns. A query is a read when \<^verbatim>\<open>query\<close> puts it on
  the queue of \<^verbatim>\<open>all\<close>, which is when its lower-cased text starts with \<^verbatim>\<open>select\<close>, and
  a write otherwise.
\<close>

datatype 'h operation =
  Query 'h string "jsvalue list option"
| Transaction 'h "IBulkQuery list"

fun submit :: "'h operation \<Rightarrow> ('h, 'db) SQLite \<Rightarrow> ('h, 'db) SQLite" where
  "submit (Query h query vals) st = SQLite_query h query vals st"
| "submit (Transaction h qs) st = SQLite_transaction h qs st"

fun handle_of :: "'h operation \<Rightarrow> 'h" where
  "handle_of (Query h query vals) = h"
| "handle_of (Transaction h qs) = h"

fun is_transaction :: "'h operation \<Rightarrow> bool" where
  "is_transaction (Query h query vals) = False"
| "is_transaction (Transaction h qs) = True"

fun is_read :: "'h operation \<Rightarrow> bool" where
  "is_read (Query h query vals) = startsWith (toLowerCase query) ''select''"
| "is_read (Transaction h qs) = False"

fun is_write :: "'h operation \<Rightarrow> bool" where
  "is_write (Query h query vals) = (\<not> startsWith (toLowerCase query) ''select'')"
| "is_write (Transaction h qs) = False"

text \<open>The object as the constructor leaves it: empty queues and a running timer.\<close>

definition new_SQLite :: "'db \<Rightarrow> ('h, 'db) SQLite" where
  "new_SQLite db =
     \<lparr> m_db = db, m_timer_paused = False, m_transactionQueue = [], m_runQueue = [],
       m_allQueue = [], settled = [] \<rparr>"

subsection \<open>A driver for the examples\<close>

text \<open>
  A small driver to run the scheduler on. It keeps whether a transaction is open,
  whether the database is closed, and the statements it has executed. Like SQLite it
  refuses \<^verbatim>\<open>BEGIN\<close> inside a transaction and \<^verbatim>\<open>COMMIT\<close> and \<^verbatim>\<open>ROLLBACK\<close> outside of
  one, and refuses everything once closed. Every statement that starts with
  \<^verbatim>\<open>insert or rollback\<close> or \<^verbatim>\<open>insert or abort\<close> meets a conflicting row and fails; the
  first of the two also rolls the open transaction back, as that conflict clause does.
  Every other statement succeeds.
\<close>

record test_db =
  in_transaction :: bool
  is_closed :: bool
  executed :: "string list"

definition test_run ::
  "test_db \<Rightarrow> string \<Rightarrow> jsvalue list option \<Rightarrow> (error + RunResult) \<times> test_db"
where
  "test_run db query vals =
     (if is_closed db then (Inl (Error ''SQLITE_MISUSE: Database is closed''), db)
      else if query = ''BEGIN TRANSACTION'' then
        (if in_transaction db
         then (Inl (Error ''SQLITE_ERROR: cannot start a transaction within a transaction''), db)
         else (Inr \<lparr>lastID = 0, changes = 0\<rparr>, db\<lparr>in_transaction := True\<rparr>))
      else if query = ''COMMIT'' then
        (if in_transaction db
         then (Inr \<lparr>lastID = 0, changes = 0\<rparr>, db\<lparr>in_transaction := False\<rparr>)
         else (Inl (Error ''SQLITE_ERROR: cannot commit - no transaction is active''), db))
      else if query = ''ROLLBACK'' then
        (if in_transaction db
         then (Inr \<lparr>lastID = 0, changes = 0\<rparr>, db\<lparr>in_transaction := False\<rparr>)
         else (Inl (Error ''SQLITE_ERROR: cannot rollback - no transaction is active''), db))
      else if startsWith (toLowerCase query) ''insert or rollback'' then
        (Inl (Error ''SQLITE_CONSTRAINT: UNIQUE constraint failed''), db\<lparr>in_transaction := False\<rparr>)
      else if startsWith (toLowerCase query) ''insert or abort'' then
        (Inl (Error ''SQLITE_CONSTRAINT: UNIQUE constraint failed''), db)
      else
        (Inr \<lparr>lastID = int (length (executed db)) + 1, changes = 1\<rparr>,
         db\<lparr>executed := executed db @ [query]\<rparr>))"

definition test_rows :: "row list" where
  "test_rows = [Map.empty(''n'' \<mapsto> JNumber 1), Map.empty(''n'' \<mapsto> JNumber 2)]"

definition test_all ::
  "test_db \<Rightarrow> string \<Rightarrow> jsvalue list option \<Rightarrow> (error + row list) \<times> test_db"
where
  "test_all db query vals =
     (if is_closed db then (Inl (Error ''SQLITE_MISUSE: Database is closed''), db)
      else (Inr test_rows, db\<lparr>executed := executed db @ [query]\<rparr>))"

definition test_close :: "test_db \<Rightarrow> error option \<times> test_db" where
  "test_close db =
     (if is_closed db then (Some (Error ''SQLITE_MISUSE: Database is closed''), db)
      else (None, db\<lparr>is_closed := True\<rparr>))"

definition test_driver :: "test_db Database" where
  "test_driver = \<lparr> db_run = test_run, db_all = test_all, db_close = test_close \<rparr>"

definition test_db0 :: test_db where
  "test_db0 = \<lparr> in_transaction = False, is_closed = False, executed = [] \<rparr>"

section \<open>SQLite.ts: the handler and close() between other events\<close>

text \<open>
  The tick handler and \<^verbatim>\<open>close\<close> are asynchronous functions: each runs until its next
  \<^verbatim>\<open>await\<close> and continues when the awaited promise is settled; in between, other events
  run. The model below makes these steps explicit. The driver executes a request when
  it is made and calls the callbacks in the order of the requests; \<open>deliveries\<close> is the
  list of the callbacks still to come, and the result a callback will bring is kept with
  the continuation that waits for it.

  \<open>handler\<close> is the continuation of the tick handler, one case for each \<^verbatim>\<open>await\<close> on the
  driver: \<^verbatim>\<open>beginTransaction\<close>, \<^verbatim>\<open>query\<close> (with the statements of the transaction still
  to run), \<^verbatim>\<open>commit\<close>, \<^verbatim>\<open>rollback\<close> in the \<^verbatim>\<open>catch\<close> clause (with the error caught),
  \<^verbatim>\<open>this.all\<close> and \<^verbatim>\<open>this.run\<close>. \<^verbatim>\<open>await this.connection()\<close> is settled at once and is
  not a case. \<open>Aborted e\<close> is the handler left by the error \<open>e\<close>.
\<close>

datatype 'h handler =
    Idle
  | AwaitBegin "'h ITransactionQueueEntry" "error option"
  | AwaitQuery "'h ITransactionQueueEntry" "IBulkQuery list" "error option"
  | AwaitCommit "'h ITransactionQueueEntry" "error option"
  | AwaitRollback "'h ITransactionQueueEntry" error "error option"
  | AwaitAll "'h IQueryQueueEntry" "error + IQueryResult"
  | AwaitRun "'h IQueryQueueEntry" "error + IQueryResult"
  | Aborted error

datatype delivery = To_handler | To_close "error option"

text \<open>
  \<open>close_called\<close>: \<^verbatim>\<open>close\<close> has left its loop and has called \<^verbatim>\<open>m_db.close\<close>.
  \<open>close_result\<close>: how the promise of \<^verbatim>\<open>close\<close> was settled, \<open>None\<close> while it is
  pending.
\<close>

record ('h, 'db) Process =
  sqlite :: "('h, 'db) SQLite"
  handler :: "'h handler"
  deliveries :: "delivery list"
  close_called :: bool
  close_result :: "unit settlement option"

definition new_Process :: "'db \<Rightarrow> ('h, 'db) Process" where
  "new_Process db =
     \<lparr> sqlite = new_SQLite db, handler = Idle, deliveries = [], close_called = False,
       close_result = None \<rparr>"

definition await :: "'h handler \<Rightarrow> 'db \<Rightarrow> ('h, 'db) Process \<Rightarrow> ('h, 'db) Process" where
  "await continuation db' p =
     p\<lparr> sqlite := (sqlite p)\<lparr>m_db := db'\<rparr>, handler := continuation,
        deliveries := deliveries p @ [To_handler] \<rparr>"

definition next_run :: "'db Database \<Rightarrow> ('h, 'db) Process \<Rightarrow> ('h, 'db) Process" where
  "next_run drv p =
     (case m_runQueue (sqlite p) of
        [] \<Rightarrow> p\<lparr>sqlite := (sqlite p)\<lparr>m_timer_paused := False\<rparr>, handler := Idle\<rparr>
      | queue # rest \<Rightarrow>
          (case SQLite_run drv (m_db (sqlite p)) (entry_query queue) (entry_values queue) of
             (result, db') \<Rightarrow>
               await (AwaitRun queue result) db' (p\<lparr>sqlite := (sqlite p)\<lparr>m_runQueue := rest\<rparr>\<rparr>)))"

definition next_all :: "'db Database \<Rightarrow> ('h, 'db) Process \<Rightarrow> ('h, 'db) Process" where
  "next_all drv p =
     (case m_allQueue (sqlite p) of
        [] \<Rightarrow> next_run drv p
      | queue # rest \<Rightarrow>
          (case SQLite_all drv (m_db (sqlite p)) (entry_query queue) (entry_values queue) of
             (result, db') \<Rightarrow>
               await (AwaitAll queue result) db' (p\<lparr>sqlite := (sqlite p)\<lparr>m_allQueue := rest\<rparr>\<rparr>)))"

definition next_transaction :: "'db Database \<Rightarrow> ('h, 'db) Process \<Rightarrow> ('h, 'db) Process" where
  "next_transaction drv p =
     (case m_transactionQueue (sqlite p) of
        [] \<Rightarrow> next_all drv p
      | queuedTransaction # rest \<Rightarrow>
          (case sqlite_beginTransaction drv (m_db (sqlite p)) of
             (result, db') \<Rightarrow>
               await (AwaitBegin queuedTransaction result) db'
                 (p\<lparr>sqlite := (sqlite p)\<lparr>m_transactionQueue := rest\<rparr>\<rparr>)))"

definition next_statement ::
  "'db Database \<Rightarrow> 'h ITransactionQueueEntry \<Rightarrow> IBulkQuery list \<Rightarrow> ('h, 'db) Process
   \<Rightarrow> ('h, 'db) Process"
where
  "next_statement drv queuedTransaction qs p =
     (case qs of
        [] \<Rightarrow>
          (case sqlite_commit drv (m_db (sqlite p)) of
             (result, db') \<Rightarrow> await (AwaitCommit queuedTransaction result) db' p)
      | q # rest \<Rightarrow>
          (case sqlite_query drv (m_db (sqlite p)) (bulk_query q) (bulk_values q) of
             (result, db') \<Rightarrow> await (AwaitQuery queuedTransaction rest result) db' p))"

definition catch_error ::
  "'db Database \<Rightarrow> 'h ITransactionQueueEntry \<Rightarrow> error \<Rightarrow> ('h, 'db) Process \<Rightarrow> ('h, 'db) Process"
where
  "catch_error drv queuedTransaction e p =
     (case sqlite_rollback drv (m_db (sqlite p)) of
        (result, db') \<Rightarrow> await (AwaitRollback queuedTransaction e result) db' p)"

definition settle ::
  "'h \<Rightarrow> IQueryResult option settlement \<Rightarrow> ('h, 'db) Process \<Rightarrow> ('h, 'db) Process"
where
  "settle h outcome p = p\<lparr>sqlite := call_callback h outcome (sqlite p)\<rparr>"

text \<open>The handler continues after the callback of its driver request.\<close>

fun resume :: "'db Database \<Rightarrow> 'h handler \<Rightarrow> ('h, 'db) Process \<Rightarrow> ('h, 'db) Process" where
  "resume drv (AwaitBegin t None) p = next_statement drv t (queries t) p"
| "resume drv (AwaitBegin t (Some e)) p = catch_error drv t e p"
| "resume drv (AwaitQuery t rest None) p = next_statement drv t rest p"
| "resume drv (AwaitQuery t rest (Some e)) p = catch_error drv t e p"
| "resume drv (AwaitCommit t None) p = next_transaction drv (settle (callback t) (Resolved None) p)"
| "resume drv (AwaitCommit t (Some e)) p = catch_error drv t e p"
| "resume drv (AwaitRollback t e None) p = next_transaction drv (settle (callback t) (Rejected e) p)"
| "resume drv (AwaitRollback t e (Some e')) p = p\<lparr>handler := Aborted e'\<rparr>"
| "resume drv (AwaitAll q (Inr result)) p =
     next_all drv (settle (callback q) (Resolved (Some result)) p)"
| "resume drv (AwaitAll q (Inl e)) p = next_all drv (settle (callback q) (Rejected e) p)"
| "resume drv (AwaitRun q (Inr result)) p =
     next_run drv (settle (callback q) (Resolved (Some result)) p)"
| "resume drv (AwaitRun q (Inl e)) p = next_run drv (settle (callback q) (Rejected e) p)"
| "resume drv Idle p = p"
| "resume drv (Aborted e) p = p"

text \<open>
  The events: a caller submits an operation; the timer fires (it does not while it is
  paused); \<^verbatim>\<open>close\<close> tests the condition of its loop (when it is called, and after each
  \<^verbatim>\<open>sleep\<close>); the driver calls the next callback.
\<close>

datatype 'h event = Submit "'h operation" | Timer_tick | Close_poll | Deliver

fun step :: "'db Database \<Rightarrow> 'h event \<Rightarrow> ('h, 'db) Process \<Rightarrow> ('h, 'db) Process" where
  "step drv (Submit op) p = p\<lparr>sqlite := submit op (sqlite p)\<rparr>"
| "step drv Timer_tick p =
     (if m_timer_paused (sqlite p) then p
      else next_transaction drv (p\<lparr>sqlite := (sqlite p)\<lparr>m_timer_paused := True\<rparr>\<rparr>))"
| "step drv Close_poll p =
     (if close_called p then p
      else if length (m_transactionQueue (sqlite p)) \<noteq> 0 \<or>
              length (m_runQueue (sqlite p)) \<noteq> 0 \<or>
              length (m_allQueue (sqlite p)) \<noteq> 0 then p
      else
        (case db_close drv (m_db (sqlite p)) of
           (result, db') \<Rightarrow>
             p\<lparr> sqlite := (sqlite p)\<lparr>m_db := db'\<rparr>, close_called := True,
                deliveries := deliveries p @ [To_close result] \<rparr>))"
| "step drv Deliver p =
     (case deliveries p of
        [] \<Rightarrow> p
      | To_handler # rest \<Rightarrow> resume drv (handler p) (p\<lparr>deliveries := rest\<rparr>)
      | To_close None # rest \<Rightarrow> p\<lparr>deliveries := rest, close_result := Some (Resolved ())\<rparr>
      | To_close (Some e) # rest \<Rightarrow> p\<lparr>deliveries := rest, close_result := Some (Rejected e)\<rparr>)"

fun run_events :: "'db Database \<Rightarrow> 'h event list \<Rightarrow> ('h, 'db) Process \<Rightarrow> ('h, 'db) Process" where
  "run_events drv [] p = p"
| "run_events drv (ev # evs) p = run_events drv evs (step drv ev p)"

text \<open>
  \<open>reaches drv p q\<close>: from \<open>p\<close> the process gets to \<open>q\<close> by callbacks of the driver
  alone, with no other event in between.
\<close>

definition reaches :: "'db Database \<Rightarrow> ('h, 'db) Process \<Rightarrow> ('h, 'db) Process \<Rightarrow> bool" where
  "reaches drv p q = (\<exists>n. run_events drv (replicate n Deliver) p = q)"

subsection \<open>Operations for the examples\<close>

text \<open>
  Two transactions of one statement each and a read. The statement of the first
  transaction fails on the driver of the examples, and the conflict rolls the
  transaction back.
\<close>

definition example_ops :: "nat operation list" where
  "example_ops =
     [Transaction 1
        [\<lparr>bulk_query = ''INSERT OR ROLLBACK INTO accounts (id) VALUES (1)'', bulk_values = None\<rparr>],
      Transaction 2
        [\<lparr>bulk_query = ''INSERT INTO accounts (id) VALUES (2)'', bulk_values = None\<rparr>],
      Query 3 ''SELECT id FROM accounts'' None]"

text \<open>
  The run of claim C2's failure: a transaction is submitted, the timer fires, \<^verbatim>\<open>close\<close>
  is called, and the driver calls the next two callbacks.
\<close>

definition close_during_transaction ::
  "'db Database \<Rightarrow> 'h \<Rightarrow> IBulkQuery list \<Rightarrow> 'db \<Rightarrow> ('h, 'db) Process"
where
  "close_during_transaction drv h qs db =
     run_events drv [Submit (Transaction h qs), Timer_tick, Close_poll, Deliver, Deliver]
       (new_Process db)"

section \<open>MySQL.ts\<close>

text \<open>
  The results the \<^verbatim>\<open>mysql\<close> driver passes to the callback of \<^verbatim>\<open>query\<close>: for a
  statement that returns no rows an object with the fields \<^verbatim>\<open>affectedRows\<close>,
  \<^verbatim>\<open>insertId\<close> and \<^verbatim>\<open>changedRows\<close> (among others that the code does not read), for a
  statement that returns rows the array of the rows.
\<close>

record OkPacket =
  affectedRows :: int
  insertId :: int
  changedRows :: int

datatype mysql_results = Ok OkPacket | Rows "row list"

text \<open>
  The pool and its connections are parameters of the model, like the sqlite3 driver:
  the state of the server and the pool has the type \<open>'p\<close>, a connection the type \<open>'c\<close>.
\<close>

record ('p, 'c) Pool =
  pool_query :: "'p \<Rightarrow> string \<Rightarrow> jsvalue list \<Rightarrow> (error + mysql_results) \<times> 'p"
  pool_getConnection :: "'p \<Rightarrow> (error + 'c) \<times> 'p"
  conn_beginTransaction :: "'p \<Rightarrow> 'c \<Rightarrow> error option \<times> 'p"
  conn_query :: "'p \<Rightarrow> 'c \<Rightarrow> string \<Rightarrow> jsvalue list \<Rightarrow> error option \<times> 'p"
  conn_commit :: "'p \<Rightarrow> 'c \<Rightarrow> error option \<times> 'p"
  conn_rollback :: "'p \<Rightarrow> 'c \<Rightarrow> error option \<times> 'p"
  conn_release :: "'p \<Rightarrow> 'c \<Rightarrow> 'p"

text \<open>
  Reading a field of the results gives \<^verbatim>\<open>undefined\<close> (\<open>None\<close>) when the results do not
  have it: an array of rows has a \<^verbatim>\<open>length\<close> and none of the three counters, the other
  object has the counters and no \<^verbatim>\<open>length\<close>. \<open>or_else a b\<close> is \<^verbatim>\<open>a || b\<close>: \<open>a\<close> when it is
  a number other than zero, and \<open>b\<close> otherwise.
\<close>

fun changedRows_of :: "mysql_results \<Rightarrow> int option" where
  "changedRows_of (Ok packet) = Some (changedRows packet)"
| "changedRows_of (Rows rows) = None"

fun affectedRows_of :: "mysql_results \<Rightarrow> int option" where
  "affectedRows_of (Ok packet) = Some (affectedRows packet)"
| "affectedRows_of (Rows rows) = None"

fun insertId_of :: "mysql_results \<Rightarrow> int option" where
  "insertId_of (Ok packet) = Some (insertId packet)"
| "insertId_of (Rows rows) = None"

fun length_of :: "mysql_results \<Rightarrow> int option" where
  "length_of (Ok packet) = None"
| "length_of (Rows rows) = Some (int (length rows))"

definition or_else :: "int option \<Rightarrow> int option \<Rightarrow> int option" where
  "or_else a b = (case a of Some n \<Rightarrow> if n = 0 then b else Some n | None \<Rightarrow> b)"

text \<open>
  The method \<^verbatim>\<open>query\<close>. The count of the result is \<open>None\<close> when the expression yields
  \<^verbatim>\<open>undefined\<close>.
\<close>

definition MySQL_query ::
  "('p, 'c) Pool \<Rightarrow> 'p \<Rightarrow> string \<Rightarrow> jsvalue list option
   \<Rightarrow> (error + int option \<times> mysql_results) \<times> 'p"
where
  "MySQL_query drv pool query vals =
     (case pool_query drv pool query (case vals of Some vs \<Rightarrow> vs | None \<Rightarrow> []) of
        (Inl error, pool') \<Rightarrow> (Inl error, pool')
      | (Inr results, pool') \<Rightarrow>
          (let count = or_else (or_else (or_else (changedRows_of results)
                                   (affectedRows_of results))
                          (insertId_of results))
                 (length_of results)
           in (Inr (count, results), pool')))"

text \<open>The function \<^verbatim>\<open>query\<close> of the module, with its default \<^verbatim>\<open>values = []\<close>.\<close>

definition mysql_query ::
  "('p, 'c) Pool \<Rightarrow> 'p \<Rightarrow> 'c \<Rightarrow> string \<Rightarrow> jsvalue list option \<Rightarrow> error option \<times> 'p"
where
  "mysql_query drv pool connection query vals =
     conn_query drv pool connection query (case vals of Some vs \<Rightarrow> vs | None \<Rightarrow> [])"

fun mysql_queries ::
  "('p, 'c) Pool \<Rightarrow> 'p \<Rightarrow> 'c \<Rightarrow> IBulkQuery list \<Rightarrow> error option \<times> 'p"
where
  "mysql_queries drv pool connection [] = (None, pool)"
| "mysql_queries drv pool connection (q # qs) =
     (case mysql_query drv pool connection (bulk_query q) (bulk_values q) of
        (Some error, pool') \<Rightarrow> (Some error, pool')
      | (None, pool') \<Rightarrow> mysql_queries drv pool' connection qs)"

text \<open>
  The method \<^verbatim>\<open>transaction\<close>: \<open>None\<close> when its promise is resolved, \<open>Some e\<close> when it
  is rejected with \<open>e\<close>. The connection is acquired before the \<^verbatim>\<open>try\<close>; the \<^verbatim>\<open>finally\<close>
  clause releases it on every path out of the \<^verbatim>\<open>try\<close> statement.
\<close>

definition MySQL_transaction ::
  "('p, 'c) Pool \<Rightarrow> 'p \<Rightarrow> IBulkQuery list \<Rightarrow> error option \<times> 'p"
where
  "MySQL_transaction drv pool qs =
     (case pool_getConnection drv pool of
        (Inl error, pool0) \<Rightarrow> (Some error, pool0)
      | (Inr connection, pool0) \<Rightarrow>
          (case (case conn_beginTransaction drv pool0 connection of
                   (Some e, pool1) \<Rightarrow> (Some e, pool1)
                 | (None, pool1) \<Rightarrow>
                     (case mysql_queries drv pool1 connection qs of
                        (Some e, pool2) \<Rightarrow> (Some e, pool2)
                      | (None, pool2) \<Rightarrow> conn_commit drv pool2 connection)) of
             (None, pool3) \<Rightarrow> (None, conn_release drv pool3 connection)
           | (Some e, pool3) \<Rightarrow>
               (case conn_rollback drv pool3 connection of
                  (None, pool4) \<Rightarrow> (Some e, conn_release drv pool4 connection)
                | (Some e', pool4) \<Rightarrow> (Some e', conn_release drv pool4 connection))))"

subsection \<open>A pool for the examples\<close>

text \<open>
  The state is the list of the requests made. Through the pool, an \<^verbatim>\<open>insert\<close> statement
  inserts three rows, the first with the generated id 7, an \<^verbatim>\<open>update\<close> statement
  matches two rows and changes one of them, a \<^verbatim>\<open>select\<close> statement returns two rows,
  and any other statement changes nothing. On a connection, every statement that starts
  with \<^verbatim>\<open>CREATE TABLE\<close> is refused and every other statement succeeds.
\<close>

definition test_pool_query ::
  "string list \<Rightarrow> string \<Rightarrow> jsvalue list \<Rightarrow> (error + mysql_results) \<times> string list"
where
  "test_pool_query pool query vals =
     (if startsWith (toLowerCase query) ''insert'' then
        (Inr (Ok \<lparr>affectedRows = 3, insertId = 7, changedRows = 0\<rparr>), pool @ [query])
      else if startsWith (toLowerCase query) ''update'' then
        (Inr (Ok \<lparr>affectedRows = 2, insertId = 0, changedRows = 1\<rparr>), pool @ [query])
      else if startsWith (toLowerCase query) ''select'' then
        (Inr (Rows [Map.empty(''n'' \<mapsto> JNumber 1), Map.empty(''n'' \<mapsto> JNumber 2)]),
         pool @ [query])
      else (Inr (Ok \<lparr>affectedRows = 0, insertId = 0, changedRows = 0\<rparr>), pool @ [query]))"

definition test_conn_query ::
  "string list \<Rightarrow> nat \<Rightarrow> string \<Rightarrow> jsvalue list \<Rightarrow> error option \<times> string list"
where
  "test_conn_query pool connection query vals =
     (if startsWith query ''CREATE TABLE''
      then (Some (Error ''ER_TABLEACCESS_DENIED_ERROR''), pool)
      else (None, pool @ [query]))"

definition test_pool :: "(string list, nat) Pool" where
  "test_pool =
     \<lparr> pool_query = test_pool_query,
       pool_getConnection = (\<lambda>pool. (Inr 0, pool)),
       conn_beginTransaction = (\<lambda>pool connection. (None, pool @ [''START TRANSACTION''])),
       conn_query = test_conn_query,
       conn_commit = (\<lambda>pool connection. (None, pool @ [''COMMIT''])),
       conn_rollback = (\<lambda>pool connection. (None, pool @ [''ROLLBACK''])),
       conn_release = (\<lambda>pool connection. pool @ [''release'']) \<rparr>"

text \<open>
  A second server, on which the table of the accounts already holds two rows with the
  same email: on a connection it refuses every statement that starts with
  \<^verbatim>\<open>CREATE UNIQUE INDEX\<close> and accepts every other statement.
\<close>

definition test_conn_query_duplicates ::
  "string list \<Rightarrow> nat \<Rightarrow> string \<Rightarrow> jsvalue list \<Rightarrow> error option \<times> string list"
where
  "test_conn_query_duplicates pool connection query vals =
     (if startsWith query ''CREATE UNIQUE INDEX''
      then (Some (Error ''ER_DUP_ENTRY''), pool)
      else (None, pool @ [query]))"

definition test_pool_duplicates :: "(string list, nat) Pool" where
  "test_pool_duplicates =
     \<lparr> pool_query = test_pool_query,
       pool_getConnection = (\<lambda>pool. (Inr 0, pool)),
       conn_beginTransaction = (\<lambda>pool connection. (None, pool @ [''START TRANSACTION''])),
       conn_query = test_conn_query_duplicates,
       conn_commit = (\<lambda>pool connection. (None, pool @ [''COMMIT''])),
       conn_rollback = (\<lambda>pool connection. (None, pool @ [''ROLLBACK''])),
       conn_release = (\<lambda>pool connection. pool @ [''release'']) \<rparr>"

section \<open>Types.ts and the backends: createTable\<close>

text \<open>
  The function \<^verbatim>\<open>createTable\<close> of Types.ts calls the method \<^verbatim>\<open>transaction\<close> of the
  database it is given and awaits the promise. The method is a parameter here: from the
  state of the database and the statements it gives how the promise is settled, or
  \<open>None\<close> when the promise is never settled, and the new state. The result of
  \<^verbatim>\<open>createTable\<close> is read in the same way.
\<close>

definition createTable ::
  "('s \<Rightarrow> IBulkQuery list \<Rightarrow> unit settlement option \<times> 's) \<Rightarrow> DBType \<Rightarrow> string
   \<Rightarrow> ITableColumn list \<Rightarrow> string list \<Rightarrow> string option \<Rightarrow> 's
   \<Rightarrow> unit settlement option \<times> 's"
where
  "createTable transaction dbType name flds primaryKey tableOptions db =
     (let preparedTable = prepareCreateTable dbType name flds primaryKey tableOptions
      in case transaction db [\<lparr>bulk_query = table preparedTable, bulk_values = None\<rparr>] of
           (Some (Resolved u), db1) \<Rightarrow>
             (if length (indexes preparedTable) \<noteq> 0 then
                transaction db1
                  (map (\<lambda>query. \<lparr>bulk_query = query, bulk_values = None\<rparr>)
                     (indexes preparedTable))
              else (Some (Resolved ()), db1))
         | (Some (Rejected error), db1) \<Rightarrow> (Some (Rejected error), db1)
         | (None, db1) \<Rightarrow> (None, db1))"

text \<open>
  \<^verbatim>\<open>this.emit('error', error)\<close> of the class \<^verbatim>\<open>EventEmitter\<close>, which every backend
  extends. A listener is a function of the error that returns (\<open>None\<close>) or throws
  (\<open>Some e\<close>). \<^verbatim>\<open>emit\<close> calls the listeners registered for the event in turn and passes on
  what a listener throws; with no listener registered for \<^verbatim>\<open>'error'\<close>, it throws the
  error it was given.
\<close>

type_synonym listener = "error \<Rightarrow> error option"

fun call_listeners :: "listener list \<Rightarrow> error \<Rightarrow> error option" where
  "call_listeners [] error = None"
| "call_listeners (l # ls) error =
     (case l error of Some thrown \<Rightarrow> Some thrown | None \<Rightarrow> call_listeners ls error)"

definition emit_error :: "listener list \<Rightarrow> error \<Rightarrow> error option" where
  "emit_error listeners error =
     (if listeners = [] then Some error else call_listeners listeners error)"

text \<open>
  The method \<^verbatim>\<open>createTable\<close>, the same in the classes SQLite, MySQL and Postgres. Its
  parameters are the listeners registered for \<^verbatim>\<open>'error'\<close>, the method \<^verbatim>\<open>transaction\<close> of
  the class and \<^verbatim>\<open>this.type\<close>. The result is how the promise of the method is settled, the
  errors it passed to \<^verbatim>\<open>emit\<close>, and the new state.
\<close>

definition Database_createTable ::
  "listener list \<Rightarrow> ('s \<Rightarrow> IBulkQuery list \<Rightarrow> unit settlement option \<times> 's) \<Rightarrow> DBType
   \<Rightarrow> string \<Rightarrow> ITableColumn list \<Rightarrow> string list \<Rightarrow> string option \<Rightarrow> 's
   \<Rightarrow> unit settlement option \<times> error list \<times> 's"
where
  "Database_createTable listeners transaction dbType name flds primaryKey tableOptions db =
     (case createTable transaction dbType name flds primaryKey tableOptions db of
        (Some (Rejected error), db') \<Rightarrow>
          (case emit_error listeners error of
             None \<Rightarrow> (Some (Resolved ()), [error], db')
           | Some thrown \<Rightarrow> (Some (Rejected thrown), [error], db'))
      | (Some (Resolved u), db') \<Rightarrow> (Some (Resolved ()), [], db')
      | (None, db') \<Rightarrow> (None, [], db'))"

text \<open>The promise of \<^verbatim>\<open>MySQL.transaction\<close>, which is always settled.\<close>

definition MySQL_transaction_promise ::
  "('p, 'c) Pool \<Rightarrow> 'p \<Rightarrow> IBulkQuery list \<Rightarrow> unit settlement option \<times> 'p"
where
  "MySQL_transaction_promise drv pool qs =
     (case MySQL_transaction drv pool qs of
        (None, pool') \<Rightarrow> (Some (Resolved ()), pool')
      | (Some e, pool') \<Rightarrow> (Some (Rejected e), pool'))"

section \<open>SQLite.ts: getPragma\<close>

text \<open>
  What \<^verbatim>\<open>getPragma\<close> returns: the value of one property (\<open>None\<close> for \<^verbatim>\<open>undefined\<close>),
  the list of the values of that property in every row, or the rows themselves.
\<close>

datatype pragma_result =
    Single "jsvalue option"
  | Column "jsvalue option list"
  | AllRows "row list"

fun truthy :: "jsvalue option \<Rightarrow> bool" where
  "truthy None = False"
| "truthy (Some JNull) = False"
| "truthy (Some (JNumber n)) = (n \<noteq> 0)"
| "truthy (Some (JString s)) = (s \<noteq> [])"
| "truthy (Some (JBoolean b)) = b"

definition getPragma_query :: "string \<Rightarrow> string" where
  "getPragma_query option = ''PRAGMA '' @ toLowerCase option"

text \<open>
  The statements after \<^verbatim>\<open>await this.query(query)\<close>, for the result \<^verbatim>\<open>[count, rows]\<close> of
  the query. \<^verbatim>\<open>rows[0]\<close> is \<^verbatim>\<open>undefined\<close> when there is no row, and reading a property
  of \<^verbatim>\<open>undefined\<close> throws a \<^verbatim>\<open>TypeError\<close>.
\<close>

definition getPragma_result :: "string \<Rightarrow> IQueryResult \<Rightarrow> error + pragma_result" where
  "getPragma_result option result =
     (case result of (count, rows) \<Rightarrow>
        (if count = 1 then
           (case rows of
              [] \<Rightarrow> Inl TypeError
            | first # _ \<Rightarrow> Inr (Single (first (toLowerCase option))))
         else
           (case rows of
              [] \<Rightarrow> Inl TypeError
            | first # _ \<Rightarrow>
                if truthy (first (toLowerCase option))
                then Inr (Column (map (\<lambda>elem. elem (toLowerCase option)) rows))
                else Inr (AllRows rows))))"

text \<open>
  \<^verbatim>\<open>getPragma\<close> once the promise of its query is settled: a rejection is thrown on, and
  so is the failure to read \<^verbatim>\<open>[count, rows]\<close> from \<^verbatim>\<open>undefined\<close>.
\<close>

fun getPragma_settled ::
  "string \<Rightarrow> IQueryResult option settlement \<Rightarrow> error + pragma_result"
where
  "getPragma_settled option (Rejected e) = Inl e"
| "getPragma_settled option (Resolved None) = Inl TypeError"
| "getPragma_settled option (Resolved (Some result)) = getPragma_result option result"

text \<open>
  The method \<^verbatim>\<open>getPragma\<close> on the scheduler: it submits its query with \<^verbatim>\<open>this.query\<close>,
  whose promise is \<open>h\<close>, and goes on when the tick handler has settled that promise.
  The first component is what \<^verbatim>\<open>getPragma\<close> returns (\<open>Inr\<close>) or throws (\<open>Inl\<close>), and
  \<open>None\<close> while \<open>h\<close> is pending.
\<close>

definition SQLite_getPragma ::
  "'db Database \<Rightarrow> 'h \<Rightarrow> string \<Rightarrow> ('h, 'db) SQLite
   \<Rightarrow> (error + pragma_result) option \<times> ('h, 'db) SQLite"
where
  "SQLite_getPragma drv h option st =
     (case tick drv (SQLite_query h (getPragma_query option) None st) of
        (left, st') \<Rightarrow> (map_option (getPragma_settled option) (map_of (settled st') h), st'))"

subsection \<open>A driver for the examples of getPragma\<close>

text \<open>
  The driver of the examples, on which the statement \<^verbatim>\<open>PRAGMA foreign_keys\<close> yields one
  row, with the value 1 in the column \<^verbatim>\<open>foreign_keys\<close>. The rows of a statement reach the
  callback of \<^verbatim>\<open>all\<close>; the callback of \<^verbatim>\<open>run\<close> gets no rows.
\<close>

definition pragma_all ::
  "test_db \<Rightarrow> string \<Rightarrow> jsvalue list option \<Rightarrow> (error + row list) \<times> test_db"
where
  "pragma_all db query vals =
     (if is_closed db then (Inl (Error ''SQLITE_MISUSE: Database is closed''), db)
      else if query = ''PRAGMA foreign_keys'' then
        (Inr [Map.empty(''foreign_keys'' \<mapsto> JNumber 1)], db\<lparr>executed := executed db @ [query]\<rparr>)
      else (Inr test_rows, db\<lparr>executed := executed db @ [query]\<rparr>))"

definition pragma_driver :: "test_db Database" where
  "pragma_driver = \<lparr> db_run = test_run, db_all = pragma_all, db_close = test_close \<rparr>"

section \<open>Properties of prepareCreateTable\<close>

lemma trim_unchanged:
  "\<not> is_space c \<Longrightarrow> \<not> is_space d \<Longrightarrow> trim (c # xs @ [d]) = c # xs @ [d]"
  by (simp add: trim_def)

lemma format_create_table:
  "format ''CREATE TABLE IF NOT EXISTS %s (%s, PRIMARY KEY (%s)%s) %s;'' [n, f, p, c, t]
   = ''CREATE TABLE IF NOT EXISTS '' @ n @ '' ('' @ f @ '', PRIMARY KEY ('' @ p @ '')'' @ c @
     '') '' @ t @ '';''"
  by simp

lemma format_unique_index:
  "format ''CREATE UNIQUE INDEX IF NOT EXISTS %s_unique_%s ON %s (%s);'' [n, c, n', c']
   = ''CREATE UNIQUE INDEX IF NOT EXISTS '' @ n @ ''_unique_'' @ c @ '' ON '' @ n' @ '' ('' @
     c' @ '');''"
  by simp

text \<open>
  The statement starts with \<^verbatim>\<open>C\<close> and ends with \<^verbatim>\<open>;\<close>, so \<^verbatim>\<open>trim\<close> removes nothing.
\<close>

lemma table_text:
  "table (prepareCreateTable dbType name flds primaryKey tableOptions) =
   ''CREATE TABLE IF NOT EXISTS '' @ name @ '' ('' @ join (l_fields flds) '', '' @
   '', PRIMARY KEY ('' @ join primaryKey '','' @ '')'' @ join (l_constraints name flds) '','' @
   '') '' @ (case tableOptions of Some opts \<Rightarrow> opts | None \<Rightarrow> []) @ '';''"
proof -
  let ?middle = "''REATE TABLE IF NOT EXISTS '' @ name @ '' ('' @ join (l_fields flds) '', '' @
    '', PRIMARY KEY ('' @ join primaryKey '','' @ '')'' @ join (l_constraints name flds) '','' @
    '') '' @ (case tableOptions of Some opts \<Rightarrow> opts | None \<Rightarrow> [])"
  have "trim (CHR ''C'' # ?middle @ [CHR '';'']) = CHR ''C'' # ?middle @ [CHR '';'']"
    by (rule trim_unchanged) (simp_all add: is_space_def)
  then show ?thesis
    by (simp add: prepareCreateTable_def format_create_table del: format.simps)
qed

lemma l_fields_unique_irrelevant:
  "l_fields (map (\<lambda>col. col\<lparr>col_unique := u col\<rparr>) flds) = l_fields flds"
  by (simp add: l_fields_def del: format.simps)

lemma l_constraints_unique_irrelevant:
  "l_constraints name (map (\<lambda>col. col\<lparr>col_unique := u col\<rparr>) flds) = l_constraints name flds"
  by (induction flds) (simp_all add: constraint_def del: format.simps split: option.splits)

text \<open>
  Claim C7 says that \<^verbatim>\<open>prepareCreateTable\<close> fails fast with a descriptive error when the
  primary-key list is empty. The function has no check and no failing branch at all: for
  the table \<^verbatim>\<open>t\<close> with one column and an empty primary key it returns the statement
  below, with the empty clause \<^verbatim>\<open>PRIMARY KEY ()\<close>.
\<close>

theorem prepareCreateTable_empty_primaryKey_counterexample:
  "prepareCreateTable SQLITE ''t''
     [\<lparr>col_name = ''a'', col_type = ''int'', col_nullable = None, col_foreign = None,
       col_unique = None, col_default = None\<rparr>] [] None =
   \<lparr> table = ''CREATE TABLE IF NOT EXISTS t (a int NOT NULL , PRIMARY KEY ()) ;'',
     indexes = [] \<rparr>"
  by (simp add: prepareCreateTable_def l_fields_def l_unique_def trim_def is_space_def)

text \<open>
  Claim C7, amended: for every table specification with an empty primary-key list,
  \<^verbatim>\<open>prepareCreateTable\<close> returns a result, and its table statement is the usual text with
  the empty clause \<^verbatim>\<open>PRIMARY KEY ()\<close>; no validation takes place.
\<close>

theorem prepareCreateTable_empty_primaryKey:
  "table (prepareCreateTable dbType name flds [] tableOptions) =
     ''CREATE TABLE IF NOT EXISTS '' @ name @ '' ('' @ join (l_fields flds) '', '' @
     '', PRIMARY KEY ()'' @ join (l_constraints name flds) '','' @ '') '' @
     (case tableOptions of Some opts \<Rightarrow> opts | None \<Rightarrow> []) @ '';''"
  by (simp add: table_text)

text \<open>
  Claim C8 gives the text of the auxiliary statement for a unique column as
  \<^verbatim>\<open>CREATE UNIQUE INDEX IF NOT EXISTS <table>_unique_<column> ON <table> (<column>)\<close>.
  The entries of the \<^verbatim>\<open>indexes\<close> list end with a semicolon, so for the accounts example
  the text of the claim is not an entry of the list.
\<close>

theorem prepareCreateTable_unique_index_counterexample:
  "''CREATE UNIQUE INDEX IF NOT EXISTS accounts_unique_email ON accounts (email)''
     \<notin> set (indexes (prepareCreateTable SQLITE ''accounts''
                 (accounts_columns ''unsigned bigint'' ''text'') [''id''] None))"
  by (simp add: prepareCreateTable_def accounts_columns_def l_unique_def)

text \<open>
  Claim C8, amended: the \<^verbatim>\<open>indexes\<close> list holds, in column order, one statement
  \<^verbatim>\<open>CREATE UNIQUE INDEX IF NOT EXISTS <table>_unique_<column> ON <table> (<column>);\<close>
  (with the closing semicolon) for each column whose \<^verbatim>\<open>unique\<close> flag is \<^verbatim>\<open>true\<close> and
  nothing else; the table statement does not depend on the \<^verbatim>\<open>unique\<close> flags, whatever
  they are set to; and for the accounts example the table statement contains
  \<^verbatim>\<open>PRIMARY KEY (id)\<close> and the only index statement is
  \<^verbatim>\<open>CREATE UNIQUE INDEX IF NOT EXISTS accounts_unique_email ON accounts (email);\<close>.
\<close>

theorem prepareCreateTable_unique_index:
  "indexes (prepareCreateTable dbType name flds primaryKey tableOptions) =
     map (\<lambda>col. ''CREATE UNIQUE INDEX IF NOT EXISTS '' @ name @ ''_unique_'' @ col_name col @
                 '' ON '' @ name @ '' ('' @ col_name col @ '');'')
       (filter (\<lambda>col. col_unique col = Some True) flds)
   \<and> table (prepareCreateTable dbType name (map (\<lambda>col. col\<lparr>col_unique := u col\<rparr>) flds)
              primaryKey tableOptions) =
     table (prepareCreateTable dbType name flds primaryKey tableOptions)
   \<and> prepareCreateTable dbType ''accounts'' (accounts_columns uint64Type blobType) [''id''] None =
     \<lparr> table = ''CREATE TABLE IF NOT EXISTS accounts (id '' @ uint64Type @
                 '' NOT NULL , email '' @ blobType @ '' NOT NULL , PRIMARY KEY (id)) ;'',
       indexes =
         [''CREATE UNIQUE INDEX IF NOT EXISTS accounts_unique_email ON accounts (email);''] \<rparr>"
proof (intro conjI)
  show "indexes (prepareCreateTable dbType name flds primaryKey tableOptions) =
     map (\<lambda>col. ''CREATE UNIQUE INDEX IF NOT EXISTS '' @ name @ ''_unique_'' @ col_name col @
                 '' ON '' @ name @ '' ('' @ col_name col @ '');'')
       (filter (\<lambda>col. col_unique col = Some True) flds)"
    by (simp add: prepareCreateTable_def l_unique_def format_unique_index del: format.simps)
  show "table (prepareCreateTable dbType name (map (\<lambda>col. col\<lparr>col_unique := u col\<rparr>) flds)
              primaryKey tableOptions) =
     table (prepareCreateTable dbType name flds primaryKey tableOptions)"
    by (simp only: table_text l_fields_unique_irrelevant l_constraints_unique_irrelevant)
  let ?r = "prepareCreateTable dbType ''accounts'' (accounts_columns uint64Type blobType)
              [''id''] None"
  have t: "table ?r = ''CREATE TABLE IF NOT EXISTS accounts (id '' @ uint64Type @
                 '' NOT NULL , email '' @ blobType @ '' NOT NULL , PRIMARY KEY (id)) ;''"
    by (simp add: table_text accounts_columns_def l_fields_def)
  have i: "indexes ?r =
      [''CREATE UNIQUE INDEX IF NOT EXISTS accounts_unique_email ON accounts (email);'']"
    by (simp add: prepareCreateTable_def accounts_columns_def l_unique_def)
  show "?r =
     \<lparr> table = ''CREATE TABLE IF NOT EXISTS accounts (id '' @ uint64Type @
                 '' NOT NULL , email '' @ blobType @ '' NOT NULL , PRIMARY KEY (id)) ;'',
       indexes =
         [''CREATE UNIQUE INDEX IF NOT EXISTS accounts_unique_email ON accounts (email);''] \<rparr>"
    using t i by (cases ?r) simp
qed

section \<open>Properties of prepareMultiInsert and prepareMultiUpdate\<close>

lemma format_insert_values:
  "format ''INSERT INTO %s (%s) VALUES %L'' [t, c] = ''INSERT INTO '' @ t @ '' ('' @ c @ '') VALUES %L''"
  by simp

lemma format_insert:
  "format ''INSERT INTO %s (%s) %L'' [t, c] = ''INSERT INTO '' @ t @ '' ('' @ c @ '') %L''"
  by simp

lemma search_append:
  "CHR ''%'' \<notin> set xs \<Longrightarrow> search ''%L'' (xs @ ys) =
     (case search ''%L'' ys of Some (pre, post) \<Rightarrow> Some (xs @ pre, post) | None \<Rightarrow> None)"
  by (induction xs) (auto split: option.splits)

lemma expand_plain: "CHR ''$'' \<notin> set r \<Longrightarrow> expand m b a r = r"
  by (induction m b a r rule: expand.induct) auto

lemma join_no_percent:
  "\<forall>c\<in>set columns. CHR ''%'' \<notin> set c \<Longrightarrow> CHR ''%'' \<notin> set (join columns '','')"
  by (induction columns "'',''" rule: join.induct) auto

lemma replace_template:
  assumes "CHR ''%'' \<notin> set xs" "CHR ''$'' \<notin> set r"
  shows "replace (xs @ ''%L'') ''%L'' r = xs @ r"
  using assms by (simp add: replace_def search_append expand_plain)

lemma MySQL_prepareMultiInsert_form:
  assumes "CHR ''%'' \<notin> set table_name" "\<forall>c\<in>set columns. CHR ''%'' \<notin> set c"
      and "CHR ''$'' \<notin> set (escape rows)"
  shows "MySQL_prepareMultiInsert escape table_name columns (Some rows) =
         ''INSERT INTO '' @ table_name @ '' ('' @ join columns '','' @ '') VALUES '' @ escape rows"
proof -
  have "CHR ''%'' \<notin> set (''INSERT INTO '' @ table_name @ '' ('' @ join columns '','' @ '') VALUES '')"
    using assms(1) join_no_percent[OF assms(2)] by simp
  from replace_template[OF this assms(3)] show ?thesis
    by (simp add: MySQL_prepareMultiInsert_def format_insert_values del: format.simps)
qed

lemma SQLite_prepareMultiInsert_form:
  assumes "CHR ''%'' \<notin> set table_name" "\<forall>c\<in>set columns. CHR ''%'' \<notin> set c"
      and "CHR ''$'' \<notin> set (escape rows)"
  shows "SQLite_prepareMultiInsert escape table_name columns (Some rows) =
         ''INSERT INTO '' @ table_name @ '' ('' @ join columns '','' @ '') '' @ escape rows"
proof -
  have "CHR ''%'' \<notin> set (''INSERT INTO '' @ table_name @ '' ('' @ join columns '','' @ '') '')"
    using assms(1) join_no_percent[OF assms(2)] by simp
  from replace_template[OF this assms(3)] show ?thesis
    by (simp add: SQLite_prepareMultiInsert_def format_insert del: format.simps)
qed

lemma sqlstring_escape_example:
  "sqlstring_escape [[JNumber 1, JNumber 20], [JNumber 2, JNumber 30]] = ''(1, 20), (2, 30)''"
  by (simp add: sqlstring_escape_def)

text \<open>
  Claim C5 says that \<^verbatim>\<open>prepareMultiInsert\<close> on every backend produces
  \<^verbatim>\<open>INSERT INTO <table> (<columns>) VALUES <row-tuples>\<close>. Evaluated on the table
  \<^verbatim>\<open>accounts\<close>, the columns \<^verbatim>\<open>id\<close> and \<^verbatim>\<open>email\<close> and two rows, the SQLite method
  returns a text without the keyword \<^verbatim>\<open>VALUES\<close> (its format string is
  \<^verbatim>\<open>INSERT INTO %s (%s) %L\<close>), while the MySQL method returns the text of the claim.
\<close>

theorem SQLite_prepareMultiInsert_omits_VALUES:
  "SQLite_prepareMultiInsert sqlstring_escape ''accounts'' [''id'', ''email'']
     (Some [[JNumber 1, JNumber 20], [JNumber 2, JNumber 30]]) =
   ''INSERT INTO accounts (id,email) (1, 20), (2, 30)''
   \<and> MySQL_prepareMultiInsert sqlstring_escape ''accounts'' [''id'', ''email'']
     (Some [[JNumber 1, JNumber 20], [JNumber 2, JNumber 30]]) =
   ''INSERT INTO accounts (id,email) VALUES (1, 20), (2, 30)''"
  by (simp add: SQLite_prepareMultiInsert_def MySQL_prepareMultiInsert_def replace_def sqlstring_escape_example)

lemma MySQL_updates_map:
  "MySQL_updates columns = map (\<lambda>c. '' '' @ c @ '' = VALUES('' @ c @ '')'') columns"
  by (induction columns) simp_all

lemma SQLite_updates_map:
  "SQLite_updates columns = map (\<lambda>c. '' '' @ c @ '' = excluded.'' @ c) columns"
  by (induction columns) simp_all

text \<open>
  Claim C6, amended: \<^verbatim>\<open>prepareMultiUpdate\<close> is the multi-insert over the primary-key
  columns followed by the other columns, then \<^verbatim>\<open> ON DUPLICATE KEY UPDATE \<close> (MySQL) or
  \<^verbatim>\<open> ON CONFLICT (<primary key>) DO UPDATE SET \<close> (SQLite), then one assignment per
  non-key column, in order, none for a primary-key column, the assignments joined by
  commas. Each assignment starts with a space: \<^verbatim>\<open> <c> = VALUES(<c>)\<close> and
  \<^verbatim>\<open> <c> = excluded.<c>\<close>. So two spaces precede the first assignment: for
  \<^verbatim>\<open>accounts\<close>, \<^verbatim>\<open>[id]\<close>, \<^verbatim>\<open>[email]\<close> the MySQL text ends in
  \<^verbatim>\<open>ON DUPLICATE KEY UPDATE  email = VALUES(email)\<close> and the SQLite text ends in
  \<^verbatim>\<open>ON CONFLICT (id) DO UPDATE SET  email = excluded.email\<close>.
\<close>

theorem prepareMultiUpdate_conflict_clause:
  "MySQL_prepareMultiUpdate escape table_name primaryKey columns vals =
     MySQL_prepareMultiInsert escape table_name (primaryKey @ columns) vals @
     '' ON DUPLICATE KEY UPDATE '' @
     join (map (\<lambda>c. '' '' @ c @ '' = VALUES('' @ c @ '')'') columns) '',''
   \<and> SQLite_prepareMultiUpdate escape table_name primaryKey columns vals =
     SQLite_prepareMultiInsert escape table_name (primaryKey @ columns) vals @
     '' ON CONFLICT ('' @ join primaryKey '','' @ '') DO UPDATE SET '' @
     join (map (\<lambda>c. '' '' @ c @ '' = excluded.'' @ c) columns) '',''
   \<and> suffix ''ON DUPLICATE KEY UPDATE  email = VALUES(email)''
        (MySQL_prepareMultiUpdate escape ''accounts'' [''id''] [''email''] vals)
   \<and> suffix ''ON CONFLICT (id) DO UPDATE SET  email = excluded.email''
        (SQLite_prepareMultiUpdate escape ''accounts'' [''id''] [''email''] vals)"
proof (intro conjI)
  show m: "\<And>table_name primaryKey columns. MySQL_prepareMultiUpdate escape table_name primaryKey columns vals =
     MySQL_prepareMultiInsert escape table_name (primaryKey @ columns) vals @
     '' ON DUPLICATE KEY UPDATE '' @
     join (map (\<lambda>c. '' '' @ c @ '' = VALUES('' @ c @ '')'') columns) '',''"
    by (simp add: MySQL_prepareMultiUpdate_def MySQL_updates_map)
  show s: "\<And>table_name primaryKey columns. SQLite_prepareMultiUpdate escape table_name primaryKey columns vals =
     SQLite_prepareMultiInsert escape table_name (primaryKey @ columns) vals @
     '' ON CONFLICT ('' @ join primaryKey '','' @ '') DO UPDATE SET '' @
     join (map (\<lambda>c. '' '' @ c @ '' = excluded.'' @ c) columns) '',''"
    by (simp add: SQLite_prepareMultiUpdate_def SQLite_updates_map)
  have "MySQL_prepareMultiUpdate escape ''accounts'' [''id''] [''email''] vals =
        (MySQL_prepareMultiInsert escape ''accounts'' ([''id''] @ [''email'']) vals @ '' '') @
        ''ON DUPLICATE KEY UPDATE  email = VALUES(email)''"
    by (simp add: m)
  then show "suffix ''ON DUPLICATE KEY UPDATE  email = VALUES(email)''
        (MySQL_prepareMultiUpdate escape ''accounts'' [''id''] [''email''] vals)"
    by (simp only: suffixI)
  have "SQLite_prepareMultiUpdate escape ''accounts'' [''id''] [''email''] vals =
        (SQLite_prepareMultiInsert escape ''accounts'' ([''id''] @ [''email'']) vals @ '' '') @
        ''ON CONFLICT (id) DO UPDATE SET  email = excluded.email''"
    by (simp add: s)
  then show "suffix ''ON CONFLICT (id) DO UPDATE SET  email = excluded.email''
        (SQLite_prepareMultiUpdate escape ''accounts'' [''id''] [''email''] vals)"
    by (simp only: suffixI)
qed

text \<open>
  Claim C6 says that the MySQL text for \<^verbatim>\<open>accounts\<close>, \<^verbatim>\<open>[id]\<close>, \<^verbatim>\<open>[email]\<close> ends
  in \<^verbatim>\<open>ON DUPLICATE KEY UPDATE email = VALUES(email)\<close> and that the SQLite text holds
  \<^verbatim>\<open>ON CONFLICT (id) DO UPDATE SET email = excluded.email\<close>, each with one space before
  the assignment. Neither is the case.
\<close>

theorem prepareMultiUpdate_conflict_clause_counterexample:
  "\<not> suffix ''ON DUPLICATE KEY UPDATE email = VALUES(email)''
       (MySQL_prepareMultiUpdate sqlstring_escape ''accounts'' [''id''] [''email'']
          (Some [[JNumber 1, JNumber 20], [JNumber 2, JNumber 30]]))
   \<and> \<not> sublist ''ON CONFLICT (id) DO UPDATE SET email = excluded.email''
       (SQLite_prepareMultiUpdate sqlstring_escape ''accounts'' [''id''] [''email'']
          (Some [[JNumber 1, JNumber 20], [JNumber 2, JNumber 30]]))"
proof -
  have "SQLite_prepareMultiUpdate sqlstring_escape ''accounts'' [''id''] [''email'']
          (Some [[JNumber 1, JNumber 20], [JNumber 2, JNumber 30]]) =
        ''INSERT INTO accounts (id,email) (1, 20), (2, 30) ON CONFLICT (id) DO UPDATE SET  email = excluded.email''"
    by (simp add: SQLite_prepareMultiUpdate_def SQLite_prepareMultiInsert_def replace_def
        sqlstring_escape_example)
  then have sqlite: "\<not> sublist ''ON CONFLICT (id) DO UPDATE SET email = excluded.email''
       (SQLite_prepareMultiUpdate sqlstring_escape ''accounts'' [''id''] [''email'']
          (Some [[JNumber 1, JNumber 20], [JNumber 2, JNumber 30]]))"
    by (simp add: sublist_Cons_right)
  have "MySQL_prepareMultiUpdate sqlstring_escape ''accounts'' [''id''] [''email'']
          (Some [[JNumber 1, JNumber 20], [JNumber 2, JNumber 30]]) =
        ''INSERT INTO accounts (id,email) VALUES (1, 20), (2, 30) ON DUPLICATE KEY UPDATE  email = VALUES(email)''"
    by (simp add: MySQL_prepareMultiUpdate_def MySQL_prepareMultiInsert_def replace_def sqlstring_escape_example)
  then show ?thesis
    using sqlite by (simp add: suffix_to_prefix)
qed

section \<open>Properties of the scheduler\<close>

text \<open>The loops, unfolded once.\<close>

lemma drain_allQueue_Nil: "m_allQueue st = [] \<Longrightarrow> drain_allQueue drv st = st"
  by (subst drain_allQueue.simps) simp

lemma drain_allQueue_Cons:
  "m_allQueue st = queue # rest \<Longrightarrow>
   drain_allQueue drv st = drain_allQueue drv (all_body drv queue (st\<lparr>m_allQueue := rest\<rparr>))"
  by (subst drain_allQueue.simps) simp

lemma drain_runQueue_Nil: "m_runQueue st = [] \<Longrightarrow> drain_runQueue drv st = st"
  by (subst drain_runQueue.simps) simp

lemma drain_runQueue_Cons:
  "m_runQueue st = queue # rest \<Longrightarrow>
   drain_runQueue drv st = drain_runQueue drv (run_body drv queue (st\<lparr>m_runQueue := rest\<rparr>))"
  by (subst drain_runQueue.simps) simp

lemma drain_transactionQueue_Nil:
  "m_transactionQueue st = [] \<Longrightarrow> drain_transactionQueue drv st = (None, st)"
  by (subst drain_transactionQueue.simps) simp

lemma drain_transactionQueue_Cons:
  "m_transactionQueue st = queuedTransaction # rest \<Longrightarrow>
   drain_transactionQueue drv st =
     (case transaction_body drv queuedTransaction (st\<lparr>m_transactionQueue := rest\<rparr>) of
        (Some e, st') \<Rightarrow> (Some e, st')
      | (None, st') \<Rightarrow> drain_transactionQueue drv st')"
  by (subst drain_transactionQueue.simps) simp

lemma all_body_frame:
  "m_allQueue (all_body drv queue st) = m_allQueue st"
  "m_runQueue (all_body drv queue st) = m_runQueue st"
  "m_transactionQueue (all_body drv queue st) = m_transactionQueue st"
  "m_timer_paused (all_body drv queue st) = m_timer_paused st"
  "map fst (settled (all_body drv queue st)) = map fst (settled st) @ [callback queue]"
  by (simp_all add: all_body_def call_callback_def split: prod.splits sum.splits)

lemma run_body_frame:
  "m_allQueue (run_body drv queue st) = m_allQueue st"
  "m_runQueue (run_body drv queue st) = m_runQueue st"
  "m_transactionQueue (run_body drv queue st) = m_transactionQueue st"
  "m_timer_paused (run_body drv queue st) = m_timer_paused st"
  "map fst (settled (run_body drv queue st)) = map fst (settled st) @ [callback queue]"
  by (simp_all add: run_body_def call_callback_def split: prod.splits sum.splits)

lemma transaction_body_frame:
  assumes "transaction_body drv entry st = (None, st')"
  shows "m_allQueue st' = m_allQueue st"
    and "m_runQueue st' = m_runQueue st"
    and "m_transactionQueue st' = m_transactionQueue st"
    and "m_timer_paused st' = m_timer_paused st"
    and "map fst (settled st') = map fst (settled st) @ [callback entry]"
  using assms
  by (auto simp: transaction_body_def call_callback_def split: prod.splits option.splits)

lemma drain_allQueue_effect:
  "m_allQueue (drain_allQueue drv st) = [] \<and>
   m_runQueue (drain_allQueue drv st) = m_runQueue st \<and>
   m_transactionQueue (drain_allQueue drv st) = m_transactionQueue st \<and>
   m_timer_paused (drain_allQueue drv st) = m_timer_paused st \<and>
   map fst (settled (drain_allQueue drv st)) =
     map fst (settled st) @ map callback (m_allQueue st)"
proof (induction drv st rule: drain_allQueue.induct)
  case (1 drv st)
  show ?case
  proof (cases "m_allQueue st")
    case Nil
    then show ?thesis by (simp add: drain_allQueue_Nil)
  next
    case (Cons queue rest)
    from "1.IH" [OF Cons] Cons show ?thesis
      by (simp add: drain_allQueue_Cons all_body_frame)
  qed
qed

lemma drain_runQueue_effect:
  "m_runQueue (drain_runQueue drv st) = [] \<and>
   m_allQueue (drain_runQueue drv st) = m_allQueue st \<and>
   m_transactionQueue (drain_runQueue drv st) = m_transactionQueue st \<and>
   m_timer_paused (drain_runQueue drv st) = m_timer_paused st \<and>
   map fst (settled (drain_runQueue drv st)) =
     map fst (settled st) @ map callback (m_runQueue st)"
proof (induction drv st rule: drain_runQueue.induct)
  case (1 drv st)
  show ?case
  proof (cases "m_runQueue st")
    case Nil
    then show ?thesis by (simp add: drain_runQueue_Nil)
  next
    case (Cons queue rest)
    from "1.IH" [OF Cons] Cons show ?thesis
      by (simp add: drain_runQueue_Cons run_body_frame)
  qed
qed

lemma drain_transactionQueue_effect:
  "drain_transactionQueue drv st = (None, st') \<Longrightarrow>
   m_transactionQueue st' = [] \<and>
   m_allQueue st' = m_allQueue st \<and>
   m_runQueue st' = m_runQueue st \<and>
   m_timer_paused st' = m_timer_paused st \<and>
   map fst (settled st') = map fst (settled st) @ map callback (m_transactionQueue st)"
proof (induction drv st rule: drain_transactionQueue.induct)
  case (1 drv st)
  show ?case
  proof (cases "m_transactionQueue st")
    case Nil
    with "1.prems" show ?thesis by (simp add: drain_transactionQueue_Nil)
  next
    case (Cons entry rest)
    obtain r st1 where body: "transaction_body drv entry (st\<lparr>m_transactionQueue := rest\<rparr>) = (r, st1)"
      by (cases "transaction_body drv entry (st\<lparr>m_transactionQueue := rest\<rparr>)")
    with "1.prems" Cons have r: "r = None" and rec: "drain_transactionQueue drv st1 = (None, st')"
      by (auto simp: drain_transactionQueue_Cons split: option.splits)
    from body r have body': "transaction_body drv entry (st\<lparr>m_transactionQueue := rest\<rparr>) = (None, st1)"
      by simp
    from "1.IH" [OF Cons body' [symmetric] refl rec] transaction_body_frame [OF body'] Cons
    show ?thesis by simp
  qed
qed

lemma transaction_body_left:
  assumes "transaction_body drv entry st = (Some e, st')"
  shows "settled st' = settled st"
  using assms
  by (auto simp: transaction_body_def call_callback_def split: prod.splits option.splits)

lemma drain_transactionQueue_prefix:
  "drain_transactionQueue drv st = (r, st') \<Longrightarrow>
   \<exists>called. prefix called (map callback (m_transactionQueue st)) \<and>
     map fst (settled st') = map fst (settled st) @ called"
proof (induction drv st rule: drain_transactionQueue.induct)
  case (1 drv st)
  show ?case
  proof (cases "m_transactionQueue st")
    case Nil
    with "1.prems" show ?thesis by (simp add: drain_transactionQueue_Nil)
  next
    case (Cons entry rest)
    obtain r1 st1 where body: "transaction_body drv entry (st\<lparr>m_transactionQueue := rest\<rparr>) = (r1, st1)"
      by (cases "transaction_body drv entry (st\<lparr>m_transactionQueue := rest\<rparr>)")
    show ?thesis
    proof (cases r1)
      case None
      with body have body': "transaction_body drv entry (st\<lparr>m_transactionQueue := rest\<rparr>) = (None, st1)"
        by simp
      with "1.prems" Cons have rec: "drain_transactionQueue drv st1 = (r, st')"
        by (simp add: drain_transactionQueue_Cons)
      from "1.IH" [OF Cons body' [symmetric] refl rec] obtain called where
        "prefix called (map callback (m_transactionQueue st1))"
        "map fst (settled st') = map fst (settled st1) @ called"
        by blast
      with transaction_body_frame [OF body'] Cons
      have "prefix (callback entry # called) (map callback (m_transactionQueue st)) \<and>
            map fst (settled st') = map fst (settled st) @ callback entry # called"
        by simp
      then show ?thesis by blast
    next
      case (Some e)
      with body have body': "transaction_body drv entry (st\<lparr>m_transactionQueue := rest\<rparr>) = (Some e, st1)"
        by simp
      with "1.prems" Cons have "st' = st1"
        by (simp add: drain_transactionQueue_Cons)
      with transaction_body_left [OF body'] have "map fst (settled st') = map fst (settled st) @ []"
        by simp
      then show ?thesis by (metis Nil_prefix)
    qed
  qed
qed

lemma submit_handles:
  "map callback (m_transactionQueue (submit op st)) =
     map callback (m_transactionQueue st) @ map handle_of (filter is_transaction [op])"
  "map callback (m_allQueue (submit op st)) =
     map callback (m_allQueue st) @ map handle_of (filter is_read [op])"
  "map callback (m_runQueue (submit op st)) =
     map callback (m_runQueue st) @ map handle_of (filter is_write [op])"
  "settled (submit op st) = settled st"
  by (cases op; simp add: SQLite_query_def SQLite_transaction_def)+

lemma fold_submit_handles:
  "map callback (m_transactionQueue (fold submit ops st)) =
     map callback (m_transactionQueue st) @ map handle_of (filter is_transaction ops) \<and>
   map callback (m_allQueue (fold submit ops st)) =
     map callback (m_allQueue st) @ map handle_of (filter is_read ops) \<and>
   map callback (m_runQueue (fold submit ops st)) =
     map callback (m_runQueue st) @ map handle_of (filter is_write ops) \<and>
   settled (fold submit ops st) = settled st"
proof (induction ops arbitrary: st)
  case Nil
  show ?case by simp
next
  case (Cons op ops)
  show ?case
    using Cons.IH [of "submit op st"] by (simp add: submit_handles)
qed

lemma tick_without_transactions:
  "m_transactionQueue st = [] \<Longrightarrow> fst (tick drv st) = None"
  by (simp add: tick_def drain_transactionQueue_Nil)

text \<open>
  The order of a drain cycle. Let operations be submitted, in the order of the list
  \<open>ops\<close>, to a scheduler whose queues are empty, and let the tick handler then run. The
  callbacks that the handler calls are called in this order, each once: the transactions
  in the order they were submitted, then the reads in the order they were submitted, then
  the writes in the order they were submitted (the first conjunct: what was called is an
  initial part of that sequence). When the handler runs to its end
  (\<open>fst (tick \<dots>) = None\<close>), every callback is called, and afterwards the three queues
  are empty and the timer runs again. When no transaction is among the operations, as for
  reads R1, R2 and a write W1, the handler always runs to its end.
\<close>

lemma drain_cycle_order:
  assumes "m_transactionQueue st = []" and "m_allQueue st = []" and "m_runQueue st = []"
  shows "prefix (map fst (settled (snd (tick drv (fold submit ops st)))))
           (map fst (settled st) @
            map handle_of (filter is_transaction ops) @
            map handle_of (filter is_read ops) @
            map handle_of (filter is_write ops)) \<and>
         (filter is_transaction ops = [] \<longrightarrow> fst (tick drv (fold submit ops st)) = None) \<and>
         (fst (tick drv (fold submit ops st)) = None \<longrightarrow>
            map fst (settled (snd (tick drv (fold submit ops st)))) =
              map fst (settled st) @
              map handle_of (filter is_transaction ops) @
              map handle_of (filter is_read ops) @
              map handle_of (filter is_write ops)
            \<and> m_transactionQueue (snd (tick drv (fold submit ops st))) = []
            \<and> m_allQueue (snd (tick drv (fold submit ops st))) = []
            \<and> m_runQueue (snd (tick drv (fold submit ops st))) = []
            \<and> \<not> m_timer_paused (snd (tick drv (fold submit ops st))))"
proof -
  note submitted = fold_submit_handles [of ops st]
  let ?s0 = "(fold submit ops st)\<lparr>m_timer_paused := True\<rparr>"
  let ?st' = "snd (tick drv (fold submit ops st))"
  let ?order = "map fst (settled st) @
              map handle_of (filter is_transaction ops) @
              map handle_of (filter is_read ops) @
              map handle_of (filter is_write ops)"
  have cycle: "map fst (settled ?st') = ?order
      \<and> m_transactionQueue ?st' = [] \<and> m_allQueue ?st' = [] \<and> m_runQueue ?st' = []
      \<and> \<not> m_timer_paused ?st'"
    if "fst (tick drv (fold submit ops st)) = None"
  proof -
    from that obtain st1 where
      tx: "drain_transactionQueue drv ?s0 = (None, st1)" and
      st': "?st' = (drain_runQueue drv (drain_allQueue drv st1))\<lparr>m_timer_paused := False\<rparr>"
      by (auto simp: tick_def split: prod.splits option.splits)
    note a = drain_transactionQueue_effect [OF tx]
    note b = drain_allQueue_effect [of drv st1]
    note c = drain_runQueue_effect [of drv "drain_allQueue drv st1"]
    from a b c submitted assms st' have "map fst (settled ?st') = ?order"
      by simp
    moreover from a b c st' have "m_transactionQueue ?st' = []" by simp
    moreover from a b c st' have "m_allQueue ?st' = []" by simp
    moreover from a b c st' have "m_runQueue ?st' = []" by simp
    moreover from st' have "\<not> m_timer_paused ?st'" by simp
    ultimately show ?thesis by simp
  qed
  have "prefix (map fst (settled ?st')) ?order"
  proof (cases "fst (tick drv (fold submit ops st))")
    case None
    from cycle [OF None] show ?thesis by simp
  next
    case (Some e)
    then obtain st1 where
      tx: "drain_transactionQueue drv ?s0 = (Some e, st1)" and st': "?st' = st1"
      by (auto simp: tick_def split: prod.splits option.splits)
    from drain_transactionQueue_prefix [OF tx] obtain called where
      "prefix called (map callback (m_transactionQueue ?s0))"
      "map fst (settled st1) = map fst (settled ?s0) @ called"
      by blast
    with submitted assms(1) st'
    have called: "prefix called (map handle_of (filter is_transaction ops))"
      and settled: "map fst (settled ?st') = map fst (settled st) @ called"
      by simp_all
    from called have "prefix called (map handle_of (filter is_transaction ops) @
        map handle_of (filter is_read ops) @ map handle_of (filter is_write ops))"
      by (rule prefix_prefix)
    with settled show ?thesis by simp
  qed
  moreover have "fst (tick drv (fold submit ops st)) = None"
    if "filter is_transaction ops = []"
  proof -
    from that submitted assms(1) have "m_transactionQueue (fold submit ops st) = []"
      by simp
    then show ?thesis by (rule tick_without_transactions)
  qed
  ultimately show ?thesis using cycle by blast
qed

text \<open>
  For every driver, the reads R1 and R2 (handles 1 and 2) and the write W1 (handle 3)
  are settled in the order R1, R2, W1 by one run of the handler. And on the driver of the
  examples: a write, a read, a transaction and another read, submitted in this order with
  the handles 1 to 4, are settled in the order transaction, read, read, write.
\<close>

lemma drain_cycle_order_example:
  "(\<forall>drv :: test_db Database.
      fst (tick drv
         (fold submit
            [Query (1::nat) ''SELECT id FROM accounts'' None,
             Query 2 ''select email from accounts'' None,
             Query 3 ''INSERT INTO accounts (id) VALUES (1)'' None]
            (new_SQLite test_db0))) = None
      \<and> map fst (settled (snd (tick drv
         (fold submit
            [Query (1::nat) ''SELECT id FROM accounts'' None,
             Query 2 ''select email from accounts'' None,
             Query 3 ''INSERT INTO accounts (id) VALUES (1)'' None]
            (new_SQLite test_db0))))) = [1, 2, 3])
   \<and> map fst (settled (snd (tick test_driver
         (fold submit
            [Query (1::nat) ''INSERT INTO accounts (id) VALUES (1)'' None,
             Query 2 ''SELECT id FROM accounts'' None,
             Transaction 3
               [\<lparr>bulk_query = ''INSERT INTO accounts (id) VALUES (2)'', bulk_values = None\<rparr>],
             Query 4 ''select email from accounts'' None]
            (new_SQLite test_db0))))) = [3, 2, 4, 1]"
proof (intro conjI allI)
  fix drv :: "test_db Database"
  let ?ops = "[Query (1::nat) ''SELECT id FROM accounts'' None,
               Query 2 ''select email from accounts'' None,
               Query 3 ''INSERT INTO accounts (id) VALUES (1)'' None]"
  let ?st = "new_SQLite test_db0 :: (nat, test_db) SQLite"
  have queues: "m_transactionQueue ?st = []" "m_allQueue ?st = []" "m_runQueue ?st = []"
    by (simp_all add: new_SQLite_def)
  have classes: "filter is_transaction ?ops = []"
    "map handle_of (filter is_read ?ops) = [1, 2]"
    "map handle_of (filter is_write ?ops) = [3]"
    by (simp_all add: startsWith_def toLowerCase_def upper_letters_def lower_letters_def)
  have settled: "settled ?st = []"
    by (simp add: new_SQLite_def)
  from drain_cycle_order [OF queues, where ops = ?ops and drv = drv] classes
  show "fst (tick drv (fold submit ?ops ?st)) = None"
    by simp
  with drain_cycle_order [OF queues, where ops = ?ops and drv = drv] classes settled
  show "map fst (settled (snd (tick drv (fold submit ?ops ?st)))) = [1, 2, 3]"
    by simp
next
  let ?ops = "[Query (1::nat) ''INSERT INTO accounts (id) VALUES (1)'' None,
               Query 2 ''SELECT id FROM accounts'' None,
               Transaction 3
                 [\<lparr>bulk_query = ''INSERT INTO accounts (id) VALUES (2)'', bulk_values = None\<rparr>],
               Query 4 ''select email from accounts'' None]"
  let ?st = "new_SQLite test_db0 :: (nat, test_db) SQLite"
  have queues: "m_transactionQueue ?st = []" "m_allQueue ?st = []" "m_runQueue ?st = []"
    by (simp_all add: new_SQLite_def)
  have classes: "map handle_of (filter is_transaction ?ops) = [3]"
    "map handle_of (filter is_read ?ops) = [2, 4]"
    "map handle_of (filter is_write ?ops) = [1]"
    by (simp_all add: startsWith_def toLowerCase_def upper_letters_def lower_letters_def)
  have settled: "settled ?st = []"
    by (simp add: new_SQLite_def)
  have cycle: "fst (tick test_driver (fold submit ?ops ?st)) = None"
    by (simp add: tick_def drain_transactionQueue_Nil drain_transactionQueue_Cons
        transaction_body_def call_callback_def SQLite_query_def SQLite_transaction_def
        try_transaction_def sqlite_beginTransaction_def sqlite_commit_def sqlite_query_def
        new_SQLite_def test_driver_def test_run_def test_db0_def startsWith_def toLowerCase_def
        upper_letters_def lower_letters_def)
  with drain_cycle_order [OF queues, where ops = ?ops and drv = test_driver] classes settled
  show "map fst (settled (snd (tick test_driver (fold submit ?ops ?st)))) = [3, 2, 4, 1]"
    by simp
qed

lemmas scheduler_simps = tick_def drain_allQueue_Nil drain_allQueue_Cons drain_runQueue_Nil
  drain_runQueue_Cons drain_transactionQueue_Nil drain_transactionQueue_Cons
  transaction_body_def all_body_def run_body_def call_callback_def SQLite_all_def
  SQLite_run_def SQLite_query_def SQLite_transaction_def try_transaction_def
  sqlite_beginTransaction_def sqlite_commit_def sqlite_query_def sqlite_rollback_def
  new_SQLite_def

lemmas test_driver_simps = test_driver_def test_run_def test_all_def test_close_def
  test_db0_def startsWith_def toLowerCase_def upper_letters_def lower_letters_def

text \<open>
  When the rollback succeeds, the callback of the failed transaction is called with the
  error and the handler goes on.
\<close>

lemma failed_transaction_is_rolled_back:
  assumes "try_transaction drv (m_db st) (queries queuedTransaction) = (Some e, db')"
      and "sqlite_rollback drv db' = (None, db'')"
  shows "transaction_body drv queuedTransaction st =
           (None, st\<lparr>m_db := db'', settled := settled st @ [(callback queuedTransaction, Rejected e)]\<rparr>)"
  using assms by (simp add: transaction_body_def call_callback_def)

text \<open>
  Claim C3 says that when a statement of a queued transaction fails, the scheduler
  executes \<^verbatim>\<open>ROLLBACK\<close>, rejects the handle of that transaction with the error, and
  goes on draining the other queued operations in the same cycle. The handler does
  execute \<^verbatim>\<open>ROLLBACK\<close>, but it awaits it inside the \<^verbatim>\<open>catch\<close> clause, before the
  callback. When the driver rejects the rollback (SQLite does when no transaction is
  open any more), the error leaves the handler: the callback of the failed transaction
  is never called, the operations still queued are not drained, and the timer stays
  paused, so no later tick drains them either.
\<close>

theorem rejected_rollback_leaves_handler:
  assumes "m_transactionQueue st = queuedTransaction # rest"
      and "try_transaction drv (m_db st) (queries queuedTransaction) = (Some e, db')"
      and "sqlite_rollback drv db' = (Some e', db'')"
  shows "tick drv st =
           (Some e', st\<lparr>m_timer_paused := True, m_transactionQueue := rest, m_db := db''\<rparr>)"
  using assms by (simp add: tick_def drain_transactionQueue_Cons transaction_body_def)

text \<open>
  The failing input of claim C3 on the driver of the examples. The statement of the first
  transaction fails and the conflict has already rolled the transaction back, so
  \<^verbatim>\<open>ROLLBACK\<close> is rejected: no handle is settled, the second transaction and the read
  stay queued, and the timer stays paused.
\<close>

theorem rejected_rollback_leaves_handler_witness:
  "tick test_driver (fold submit example_ops (new_SQLite test_db0)) =
     (Some (Error ''SQLITE_ERROR: cannot rollback - no transaction is active''),
      \<lparr> m_db = test_db0, m_timer_paused = True,
        m_transactionQueue =
          [\<lparr>callback = 2,
            queries = [\<lparr>bulk_query = ''INSERT INTO accounts (id) VALUES (2)'',
                        bulk_values = None\<rparr>]\<rparr>],
        m_runQueue = [],
        m_allQueue =
          [\<lparr>callback = 3, entry_query = ''SELECT id FROM accounts'', entry_values = None\<rparr>],
        settled = [] \<rparr>)"
proof -
  let ?st = "fold submit example_ops (new_SQLite test_db0) :: (nat, test_db) SQLite"
  let ?t1 = "\<lparr>callback = 1::nat,
              queries = [\<lparr>bulk_query = ''INSERT OR ROLLBACK INTO accounts (id) VALUES (1)'',
                          bulk_values = None\<rparr>]\<rparr>"
  let ?rest = "[\<lparr>callback = 2::nat,
                 queries = [\<lparr>bulk_query = ''INSERT INTO accounts (id) VALUES (2)'',
                             bulk_values = None\<rparr>]\<rparr>]"
  have st: "?st = \<lparr> m_db = test_db0, m_timer_paused = False,
        m_transactionQueue = ?t1 # ?rest,
        m_runQueue = [],
        m_allQueue =
          [\<lparr>callback = 3, entry_query = ''SELECT id FROM accounts'', entry_values = None\<rparr>],
        settled = [] \<rparr>"
    by (simp add: example_ops_def new_SQLite_def SQLite_query_def SQLite_transaction_def
        startsWith_def toLowerCase_def upper_letters_def lower_letters_def)
  have queue: "m_transactionQueue ?st = ?t1 # ?rest"
    by (simp add: st)
  have failed: "try_transaction test_driver (m_db ?st) (queries ?t1) =
      (Some (Error ''SQLITE_CONSTRAINT: UNIQUE constraint failed''), test_db0)"
    unfolding st
    by (simp add: try_transaction_def sqlite_beginTransaction_def sqlite_query_def
        test_driver_simps)
  have rollback: "sqlite_rollback test_driver test_db0 =
      (Some (Error ''SQLITE_ERROR: cannot rollback - no transaction is active''), test_db0)"
    by (simp add: sqlite_rollback_def test_driver_simps)
  from rejected_rollback_leaves_handler [OF queue failed rollback] show ?thesis
    unfolding st by simp
qed

text \<open>
  With a statement that fails and leaves the transaction open, the rollback succeeds:
  only the first handle is rejected, and the second transaction and the read are drained
  in the same run of the handler.
\<close>

lemma failed_transaction_isolated_example:
  "tick test_driver
     (fold submit
        [Transaction (1::nat)
           [\<lparr>bulk_query = ''INSERT OR ABORT INTO accounts (id) VALUES (1)'', bulk_values = None\<rparr>],
         Transaction 2
           [\<lparr>bulk_query = ''INSERT INTO accounts (id) VALUES (2)'', bulk_values = None\<rparr>],
         Query 3 ''SELECT id FROM accounts'' None]
        (new_SQLite test_db0)) =
     (None,
      \<lparr> m_db = \<lparr>in_transaction = False, is_closed = False,
                executed = [''INSERT INTO accounts (id) VALUES (2)'', ''SELECT id FROM accounts'']\<rparr>,
        m_timer_paused = False, m_transactionQueue = [], m_runQueue = [], m_allQueue = [],
        settled =
          [(1, Rejected (Error ''SQLITE_CONSTRAINT: UNIQUE constraint failed'')),
           (2, Resolved None),
           (3, Resolved (Some (2, test_rows)))] \<rparr>)"
  by (simp add: scheduler_simps test_driver_simps test_rows_def)


section \<open>Properties of close()\<close>

text \<open>\<^verbatim>\<open>close\<close> calls \<^verbatim>\<open>m_db.close\<close> only when the three queues are empty.\<close>

lemma close_waits_for_queues:
  assumes "\<not> close_called p" and "close_called (step drv Close_poll p)"
  shows "m_transactionQueue (sqlite p) = [] \<and> m_runQueue (sqlite p) = [] \<and>
         m_allQueue (sqlite p) = []"
  using assms by (auto split: if_splits)

text \<open>
  Claim C2 says that \<^verbatim>\<open>close\<close> completes only after every operation submitted before
  it has been resolved or rejected. \<^verbatim>\<open>close\<close> waits for the three queues to be empty, but
  the handler takes an entry off its queue before it executes it. For every driver, every
  handle \<open>h\<close> and every list of statements: after a transaction is submitted, the timer
  fires (the entry leaves the queue and \<^verbatim>\<open>BEGIN\<close> is requested), \<^verbatim>\<open>close\<close> is called
  (the queues are empty, so it calls \<^verbatim>\<open>m_db.close\<close>) and the driver calls the next two
  callbacks, the promise of \<^verbatim>\<open>close\<close> is settled while the transaction has not been
  settled: the handler is still in the middle of it.
\<close>

theorem close_overtakes_transaction:
  fixes drv :: "'db Database" and h :: 'h and db :: 'db
  shows
  "close_result (close_during_transaction drv h qs db) \<noteq> None \<and>
   h \<notin> fst ` set (settled (sqlite (close_during_transaction drv h qs db))) \<and>
   m_transactionQueue (sqlite (close_during_transaction drv h qs db)) = [] \<and>
   handler (close_during_transaction drv h qs db) \<noteq> Idle \<and>
   m_timer_paused (sqlite (close_during_transaction drv h qs db))"
proof -
  let ?t = "\<lparr>callback = h, queries = qs\<rparr>"
  obtain r db1 where started: "sqlite_beginTransaction drv db = (r, db1)"
    by (cases "sqlite_beginTransaction drv db")
  obtain rc db2 where closing: "db_close drv db1 = (rc, db2)"
    by (cases "db_close drv db1")
  have "\<exists>(cont :: 'h handler) (db3 :: 'db).
          resume drv (AwaitBegin ?t r)
             \<lparr> sqlite = \<lparr> m_db = db2, m_timer_paused = True, m_transactionQueue = [],
                          m_runQueue = [], m_allQueue = [], settled = [] \<rparr>,
               handler = AwaitBegin ?t r, deliveries = [To_close rc], close_called = True,
               close_result = None \<rparr>
           = \<lparr> sqlite = \<lparr> m_db = db3, m_timer_paused = True, m_transactionQueue = [],
                          m_runQueue = [], m_allQueue = [], settled = [] \<rparr>,
               handler = cont, deliveries = [To_close rc, To_handler], close_called = True,
               close_result = None \<rparr> \<and> cont \<noteq> Idle"
  proof (cases r)
    case None
    show ?thesis
    proof (cases qs)
      case Nil
      with None show ?thesis
        by (simp add: next_statement_def await_def split: prod.splits)
    next
      case (Cons q rest)
      with None show ?thesis
        by (simp add: next_statement_def await_def split: prod.splits)
    qed
  next
    case (Some e)
    then show ?thesis
      by (simp add: catch_error_def await_def split: prod.splits)
  qed
  then obtain cont :: "'h handler" and db3 :: 'db where
    cont: "resume drv (AwaitBegin ?t r)
             \<lparr> sqlite = \<lparr> m_db = db2, m_timer_paused = True, m_transactionQueue = [],
                          m_runQueue = [], m_allQueue = [], settled = [] \<rparr>,
               handler = AwaitBegin ?t r, deliveries = [To_close rc], close_called = True,
               close_result = None \<rparr>
           = \<lparr> sqlite = \<lparr> m_db = db3, m_timer_paused = True, m_transactionQueue = [],
                          m_runQueue = [], m_allQueue = [], settled = [] \<rparr>,
               handler = cont, deliveries = [To_close rc, To_handler], close_called = True,
               close_result = None \<rparr>" "cont \<noteq> Idle"
    by blast
  have "run_events drv [Submit (Transaction h qs), Timer_tick, Close_poll, Deliver]
          (new_Process db) =
        \<lparr> sqlite = \<lparr> m_db = db3, m_timer_paused = True, m_transactionQueue = [],
                          m_runQueue = [], m_allQueue = [], settled = [] \<rparr>,
               handler = cont, deliveries = [To_close rc, To_handler], close_called = True,
               close_result = None \<rparr>"
    using started closing cont(1)
    by (simp add: new_Process_def new_SQLite_def SQLite_transaction_def next_transaction_def
        await_def)
  then have "close_during_transaction drv h qs db =
        \<lparr> sqlite = \<lparr> m_db = db3, m_timer_paused = True, m_transactionQueue = [],
                          m_runQueue = [], m_allQueue = [], settled = [] \<rparr>,
               handler = cont, deliveries = [To_handler], close_called = True,
               close_result = Some (case rc of None \<Rightarrow> Resolved () | Some e \<Rightarrow> Rejected e) \<rparr>"
    by (cases rc) (simp_all add: close_during_transaction_def)
  with cont(2) show ?thesis
    by simp
qed

text \<open>
  On the driver of the examples the run goes on like this: the statement and the rollback
  are refused by the closed database, the rollback's error leaves the handler, and the
  handle of the transaction is never settled; the timer stays paused.
\<close>

lemma transaction_lost_example:
  "run_events test_driver [Deliver, Deliver, Deliver, Timer_tick]
     (close_during_transaction test_driver (1::nat)
        [\<lparr>bulk_query = ''INSERT INTO accounts (id) VALUES (1)'', bulk_values = None\<rparr>] test_db0) =
   \<lparr> sqlite = \<lparr> m_db = \<lparr>in_transaction = True, is_closed = True, executed = []\<rparr>,
                m_timer_paused = True, m_transactionQueue = [], m_runQueue = [],
                m_allQueue = [], settled = [] \<rparr>,
     handler = Aborted (Error ''SQLITE_MISUSE: Database is closed''),
     deliveries = [], close_called = True, close_result = Some (Resolved ()) \<rparr>"
  by (simp add: close_during_transaction_def new_Process_def next_transaction_def
      next_statement_def catch_error_def await_def scheduler_simps test_driver_simps)

section \<open>The handler step by step, and the handler run to its end\<close>

text \<open>
  The functions \<open>tick\<close>, \<open>drain_transactionQueue\<close>, \<open>drain_allQueue\<close> and
  \<open>drain_runQueue\<close> describe the handler when no other event comes in between. This
  section shows that they agree with the steps of \<open>step\<close>: when the timer fires and then
  only callbacks of the driver are delivered, the process reaches the state that \<open>tick\<close>
  computes.
\<close>

lemma run_events_append:
  "run_events drv (xs @ ys) p = run_events drv ys (run_events drv xs p)"
  by (induction xs arbitrary: p) simp_all

lemma reaches_refl: "reaches drv p p"
  unfolding reaches_def by (rule exI [of _ 0]) simp

lemma reaches_trans:
  assumes "reaches drv p q" and "reaches drv q r"
  shows "reaches drv p r"
proof -
  from assms obtain m n where
    "run_events drv (replicate m Deliver) p = q" "run_events drv (replicate n Deliver) q = r"
    unfolding reaches_def by blast
  then have "run_events drv (replicate (m + n) Deliver) p = r"
    by (simp add: replicate_add run_events_append)
  then show ?thesis
    unfolding reaches_def by blast
qed

lemma reaches_deliver:
  assumes "reaches drv (step drv Deliver p) q"
  shows "reaches drv p q"
proof -
  from assms obtain n where "run_events drv (replicate n Deliver) (step drv Deliver p) = q"
    unfolding reaches_def by blast
  then have "run_events drv (replicate (Suc n) Deliver) p = q"
    by simp
  then show ?thesis
    unfolding reaches_def by blast
qed

lemma deliveries_same: "deliveries p = ds \<Longrightarrow> p\<lparr>deliveries := ds\<rparr> = p"
  by (cases p) simp

lemma deliver_await:
  "deliveries p = [] \<Longrightarrow>
   step drv Deliver (await c db p) =
     resume drv c (p\<lparr>sqlite := (sqlite p)\<lparr>m_db := db\<rparr>, handler := c\<rparr>)"
  by (simp add: await_def deliveries_same)

lemma await_handler [simp]: "await c db (p\<lparr>handler := h\<rparr>) = await c db p"
  by (simp add: await_def)

lemma next_run_handler [simp]: "next_run drv (p\<lparr>handler := h\<rparr>) = next_run drv p"
  by (simp add: next_run_def await_def split: list.splits prod.splits)

lemma next_all_handler [simp]: "next_all drv (p\<lparr>handler := h\<rparr>) = next_all drv p"
  by (simp add: next_all_def await_def split: list.splits prod.splits)

lemma next_transaction_handler [simp]:
  "next_transaction drv (p\<lparr>handler := h\<rparr>) = next_transaction drv p"
  by (simp add: next_transaction_def await_def split: list.splits prod.splits)

lemma next_statement_handler [simp]:
  "next_statement drv t qs (p\<lparr>handler := h\<rparr>) = next_statement drv t qs p"
  by (simp add: next_statement_def await_def split: list.splits prod.splits)

lemma catch_error_handler [simp]:
  "catch_error drv t e (p\<lparr>handler := h\<rparr>) = catch_error drv t e p"
  by (simp add: catch_error_def await_def split: prod.splits)

lemma handler_irrelevant:
  assumes "p\<lparr>handler := Idle\<rparr> = q\<lparr>handler := Idle\<rparr>"
  shows "next_transaction drv p = next_transaction drv q"
    and "next_all drv p = next_all drv q"
    and "next_run drv p = next_run drv q"
    and "next_statement drv t qs p = next_statement drv t qs q"
    and "catch_error drv t e p = catch_error drv t e q"
proof -
  show "next_transaction drv p = next_transaction drv q"
    using next_transaction_handler [where p = p and h = Idle and drv = drv] next_transaction_handler [where p = q and h = Idle and drv = drv]
    by (simp only: assms)
  show "next_all drv p = next_all drv q"
    using next_all_handler [where p = p and h = Idle and drv = drv] next_all_handler [where p = q and h = Idle and drv = drv]
    by (simp only: assms)
  show "next_run drv p = next_run drv q"
    using next_run_handler [where p = p and h = Idle and drv = drv] next_run_handler [where p = q and h = Idle and drv = drv]
    by (simp only: assms)
  show "next_statement drv t qs p = next_statement drv t qs q"
    using next_statement_handler [where p = p and h = Idle and drv = drv and t = t and qs = qs] next_statement_handler [where p = q and h = Idle and drv = drv and t = t and qs = qs]
    by (simp only: assms)
  show "catch_error drv t e p = catch_error drv t e q"
    using catch_error_handler [where p = p and h = Idle and drv = drv and t = t and e = e] catch_error_handler [where p = q and h = Idle and drv = drv and t = t and e = e]
    by (simp only: assms)
qed

lemma statements_run:
  assumes "deliveries p = []" and "run_queries drv (m_db (sqlite p)) qs = (r, db')"
  shows "reaches drv (next_statement drv t qs p)
           (case r of
              Some e \<Rightarrow> catch_error drv t e (p\<lparr>sqlite := (sqlite p)\<lparr>m_db := db'\<rparr>\<rparr>)
            | None \<Rightarrow> next_statement drv t [] (p\<lparr>sqlite := (sqlite p)\<lparr>m_db := db'\<rparr>\<rparr>))"
  using assms
proof (induction qs arbitrary: p)
  case Nil
  then have "r = None" "db' = m_db (sqlite p)" by simp_all
  moreover have "p\<lparr>sqlite := (sqlite p)\<lparr>m_db := m_db (sqlite p)\<rparr>\<rparr> = p"
    by (cases p) simp
  ultimately show ?case by (simp add: reaches_refl)
next
  case (Cons q rest)
  obtain r1 db1 where q: "sqlite_query drv (m_db (sqlite p)) (bulk_query q) (bulk_values q) = (r1, db1)"
    by (cases "sqlite_query drv (m_db (sqlite p)) (bulk_query q) (bulk_values q)")
  let ?p1 = "p\<lparr>sqlite := (sqlite p)\<lparr>m_db := db1\<rparr>\<rparr>"
  let ?goal = "case r of
              Some e \<Rightarrow> catch_error drv t e (p\<lparr>sqlite := (sqlite p)\<lparr>m_db := db'\<rparr>\<rparr>)
            | None \<Rightarrow> next_statement drv t [] (p\<lparr>sqlite := (sqlite p)\<lparr>m_db := db'\<rparr>\<rparr>)"
  have start: "next_statement drv t (q # rest) p = await (AwaitQuery t rest r1) db1 p"
    using q by (simp add: next_statement_def)
  from Cons.prems have d0: "deliveries p = []" by simp
  have dl: "step drv Deliver (next_statement drv t (q # rest) p) =
      resume drv (AwaitQuery t rest r1) (?p1\<lparr>handler := AwaitQuery t rest r1\<rparr>)"
    unfolding start by (rule deliver_await [OF d0])
  have "reaches drv (step drv Deliver (next_statement drv t (q # rest) p)) ?goal"
  proof (cases r1)
    case None
    have d: "deliveries ?p1 = []" using d0 by simp
    have rq: "run_queries drv (m_db (sqlite ?p1)) rest = (r, db')"
      using Cons.prems q None by simp
    have "reaches drv (next_statement drv t rest ?p1) ?goal"
      using Cons.IH [OF d rq] by (cases r) simp_all
    then show ?thesis
      unfolding dl None by simp
  next
    case (Some e)
    with Cons.prems q have "r = Some e" "db' = db1" by simp_all
    then show ?thesis
      unfolding dl Some by (simp add: reaches_refl)
  qed
  then show ?case
    by (rule reaches_deliver)
qed

lemma catch_run:
  assumes "deliveries p = []" and "sqlite_rollback drv (m_db (sqlite p)) = (r, db')"
  shows "reaches drv (catch_error drv t e p)
           (case r of
              None \<Rightarrow> next_transaction drv
                        (settle (callback t) (Rejected e) (p\<lparr>sqlite := (sqlite p)\<lparr>m_db := db'\<rparr>\<rparr>))
            | Some e' \<Rightarrow> p\<lparr>sqlite := (sqlite p)\<lparr>m_db := db'\<rparr>, handler := Aborted e'\<rparr>)"
proof -
  have d: "step drv Deliver (catch_error drv t e p) =
      resume drv (AwaitRollback t e r)
        (p\<lparr>sqlite := (sqlite p)\<lparr>m_db := db'\<rparr>, handler := AwaitRollback t e r\<rparr>)"
    using assms(2) by (simp add: catch_error_def deliver_await [OF assms(1)] del: step.simps)
  have "reaches drv (step drv Deliver (catch_error drv t e p))
           (case r of
              None \<Rightarrow> next_transaction drv
                        (settle (callback t) (Rejected e) (p\<lparr>sqlite := (sqlite p)\<lparr>m_db := db'\<rparr>\<rparr>))
            | Some e' \<Rightarrow> p\<lparr>sqlite := (sqlite p)\<lparr>m_db := db'\<rparr>, handler := Aborted e'\<rparr>)"
  proof (cases r)
    case None
    have "next_transaction drv
            (settle (callback t) (Rejected e)
               (p\<lparr>sqlite := (sqlite p)\<lparr>m_db := db'\<rparr>, handler := AwaitRollback t e None\<rparr>)) =
          next_transaction drv
            (settle (callback t) (Rejected e) (p\<lparr>sqlite := (sqlite p)\<lparr>m_db := db'\<rparr>\<rparr>))"
      by (rule handler_irrelevant) (simp add: settle_def)
    with None d show ?thesis
      by (simp add: reaches_refl del: step.simps)
  next
    case (Some e')
    with d show ?thesis
      by (simp add: reaches_refl del: step.simps)
  qed
  then show ?thesis
    by (rule reaches_deliver)
qed

lemma commit_run:
  assumes "deliveries p = []" and "sqlite_commit drv (m_db (sqlite p)) = (r, db')"
  shows "reaches drv (next_statement drv t [] p)
           (case r of
              None \<Rightarrow> next_transaction drv
                        (settle (callback t) (Resolved None) (p\<lparr>sqlite := (sqlite p)\<lparr>m_db := db'\<rparr>\<rparr>))
            | Some e \<Rightarrow> catch_error drv t e (p\<lparr>sqlite := (sqlite p)\<lparr>m_db := db'\<rparr>\<rparr>))"
proof -
  have d: "step drv Deliver (next_statement drv t [] p) =
      resume drv (AwaitCommit t r)
        (p\<lparr>sqlite := (sqlite p)\<lparr>m_db := db'\<rparr>, handler := AwaitCommit t r\<rparr>)"
    using assms(2) by (simp add: next_statement_def deliver_await [OF assms(1)] del: step.simps)
  have "reaches drv (step drv Deliver (next_statement drv t [] p))
           (case r of
              None \<Rightarrow> next_transaction drv
                        (settle (callback t) (Resolved None) (p\<lparr>sqlite := (sqlite p)\<lparr>m_db := db'\<rparr>\<rparr>))
            | Some e \<Rightarrow> catch_error drv t e (p\<lparr>sqlite := (sqlite p)\<lparr>m_db := db'\<rparr>\<rparr>))"
  proof (cases r)
    case None
    have "next_transaction drv
            (settle (callback t) (Resolved None)
               (p\<lparr>sqlite := (sqlite p)\<lparr>m_db := db'\<rparr>, handler := AwaitCommit t None\<rparr>)) =
          next_transaction drv
            (settle (callback t) (Resolved None) (p\<lparr>sqlite := (sqlite p)\<lparr>m_db := db'\<rparr>\<rparr>))"
      by (rule handler_irrelevant) (simp add: settle_def)
    with None d show ?thesis
      by (simp add: reaches_refl del: step.simps)
  next
    case (Some e)
    have "catch_error drv t e
            (p\<lparr>sqlite := (sqlite p)\<lparr>m_db := db'\<rparr>, handler := AwaitCommit t (Some e)\<rparr>) =
          catch_error drv t e (p\<lparr>sqlite := (sqlite p)\<lparr>m_db := db'\<rparr>\<rparr>)"
      by (rule handler_irrelevant) simp
    with Some d show ?thesis
      by (simp add: reaches_refl del: step.simps)
  qed
  then show ?thesis
    by (rule reaches_deliver)
qed


lemma update_m_db_twice [simp]:
  "(p\<lparr>sqlite := (sqlite p)\<lparr>m_db := db0\<rparr>\<rparr>)
     \<lparr>sqlite := (sqlite (p\<lparr>sqlite := (sqlite p)\<lparr>m_db := db0\<rparr>\<rparr>))\<lparr>m_db := db1\<rparr>\<rparr> =
   p\<lparr>sqlite := (sqlite p)\<lparr>m_db := db1\<rparr>\<rparr>"
  by simp

lemma try_run:
  assumes "deliveries p = []"
      and "try_transaction drv (m_db (sqlite p)) (queries t) = (r, db')"
      and "sqlite_beginTransaction drv (m_db (sqlite p)) = (rb, db0)"
  shows "reaches drv (await (AwaitBegin t rb) db0 p)
           (case r of
              None \<Rightarrow> next_transaction drv
                        (settle (callback t) (Resolved None) (p\<lparr>sqlite := (sqlite p)\<lparr>m_db := db'\<rparr>\<rparr>))
            | Some e \<Rightarrow> catch_error drv t e (p\<lparr>sqlite := (sqlite p)\<lparr>m_db := db'\<rparr>\<rparr>))"
proof -
  let ?p0 = "p\<lparr>sqlite := (sqlite p)\<lparr>m_db := db0\<rparr>\<rparr>"
  let ?goal = "case r of
              None \<Rightarrow> next_transaction drv
                        (settle (callback t) (Resolved None) (p\<lparr>sqlite := (sqlite p)\<lparr>m_db := db'\<rparr>\<rparr>))
            | Some e \<Rightarrow> catch_error drv t e (p\<lparr>sqlite := (sqlite p)\<lparr>m_db := db'\<rparr>\<rparr>)"
  have d0: "deliveries ?p0 = []" using assms(1) by simp
  have dl: "step drv Deliver (await (AwaitBegin t rb) db0 p) =
      resume drv (AwaitBegin t rb) (?p0\<lparr>handler := AwaitBegin t rb\<rparr>)"
    by (rule deliver_await [OF assms(1)])
  have "reaches drv (step drv Deliver (await (AwaitBegin t rb) db0 p)) ?goal"
  proof (cases rb)
    case (Some e)
    with assms(2,3) have "r = Some e" "db' = db0"
      by (simp_all add: try_transaction_def)
    then show ?thesis
      by (simp only: dl) (simp add: Some reaches_refl)
  next
    case None
    obtain rq db1 where rq: "run_queries drv db0 (queries t) = (rq, db1)"
      by (cases "run_queries drv db0 (queries t)")
    then have rq': "run_queries drv (m_db (sqlite ?p0)) (queries t) = (rq, db1)"
      by simp
    let ?p1 = "p\<lparr>sqlite := (sqlite p)\<lparr>m_db := db1\<rparr>\<rparr>"
    have stmts: "reaches drv (next_statement drv t (queries t) ?p0)
        (case rq of Some e \<Rightarrow> catch_error drv t e ?p1 | None \<Rightarrow> next_statement drv t [] ?p1)"
      using statements_run [OF d0 rq', of t] by (cases rq) simp_all
    have "reaches drv (next_statement drv t (queries t) ?p0) ?goal"
    proof (cases rq)
      case (Some e)
      with assms(2,3) None rq have "r = Some e" "db' = db1"
        by (simp_all add: try_transaction_def)
      with stmts Some show ?thesis by simp
    next
      case rq_None: None
      have d1: "deliveries ?p1 = []" using assms(1) by simp
      from assms(2,3) None rq rq_None have c: "sqlite_commit drv (m_db (sqlite ?p1)) = (r, db')"
        by (simp add: try_transaction_def)
      have "reaches drv (next_statement drv t [] ?p1) ?goal"
        using commit_run [OF d1 c, of t] by (cases r) simp_all
      with stmts rq_None show ?thesis
        by (auto intro: reaches_trans)
    qed
    then show ?thesis
      by (simp only: dl) (simp add: None)
  qed
  then show ?thesis
    by (rule reaches_deliver)
qed

lemma transaction_run:
  assumes "deliveries p = []"
      and "transaction_body drv t (sqlite p) = (r, s')"
      and "sqlite_beginTransaction drv (m_db (sqlite p)) = (rb, db0)"
  shows "reaches drv (await (AwaitBegin t rb) db0 p)
           (case r of
              None \<Rightarrow> next_transaction drv (p\<lparr>sqlite := s'\<rparr>)
            | Some e \<Rightarrow> p\<lparr>sqlite := s', handler := Aborted e\<rparr>)"
proof -
  let ?goal = "case r of
              None \<Rightarrow> next_transaction drv (p\<lparr>sqlite := s'\<rparr>)
            | Some e \<Rightarrow> p\<lparr>sqlite := s', handler := Aborted e\<rparr>"
  obtain rt db1 where t: "try_transaction drv (m_db (sqlite p)) (queries t) = (rt, db1)"
    by (cases "try_transaction drv (m_db (sqlite p)) (queries t)")
  let ?p1 = "p\<lparr>sqlite := (sqlite p)\<lparr>m_db := db1\<rparr>\<rparr>"
  note tried = try_run [OF assms(1) t assms(3)]
  show ?thesis
  proof (cases rt)
    case None
    with assms(2) t have "r = None"
      "s' = call_callback (callback t) (Resolved None) ((sqlite p)\<lparr>m_db := db1\<rparr>)"
      by (simp_all add: transaction_body_def)
    with tried None show ?thesis
      by (simp add: settle_def)
  next
    case (Some e)
    obtain rr db2 where rr: "sqlite_rollback drv db1 = (rr, db2)"
      by (cases "sqlite_rollback drv db1")
    then have rr': "sqlite_rollback drv (m_db (sqlite ?p1)) = (rr, db2)"
      by simp
    have d1: "deliveries ?p1 = []" using assms(1) by simp
    have "reaches drv (catch_error drv t e ?p1) ?goal"
    proof (cases rr)
      case None
      with assms(2) t Some rr have "r = None"
        "s' = call_callback (callback t) (Rejected e) ((sqlite p)\<lparr>m_db := db2\<rparr>)"
        by (simp_all add: transaction_body_def)
      with catch_run [OF d1 rr', of t e] None show ?thesis
        by (simp add: settle_def)
    next
      case rr_Some: (Some e')
      with assms(2) t Some rr have "r = Some e'" "s' = (sqlite p)\<lparr>m_db := db2\<rparr>"
        by (simp_all add: transaction_body_def)
      with catch_run [OF d1 rr', of t e] rr_Some show ?thesis
        by simp
    qed
    with tried Some show ?thesis
      by (auto intro: reaches_trans)
  qed
qed


lemma sqlite_same: "p\<lparr>sqlite := sqlite p\<rparr> = p"
  by (cases p) simp

lemma transactions_run:
  assumes "deliveries p = []" and "drain_transactionQueue drv (sqlite p) = (r, s')"
  shows "reaches drv (next_transaction drv p)
           (case r of
              None \<Rightarrow> next_all drv (p\<lparr>sqlite := s'\<rparr>)
            | Some e \<Rightarrow> p\<lparr>sqlite := s', handler := Aborted e\<rparr>)"
  using assms
proof (induction "length (m_transactionQueue (sqlite p))" arbitrary: p)
  case 0
  then have empty: "m_transactionQueue (sqlite p) = []" by simp
  with "0.prems" have "r = None" "s' = sqlite p"
    by (simp_all add: drain_transactionQueue_Nil)
  with empty show ?case
    by (simp add: next_transaction_def sqlite_same reaches_refl)
next
  case (Suc n)
  then obtain t rest where queue: "m_transactionQueue (sqlite p) = t # rest" and n: "length rest = n"
    by (cases "m_transactionQueue (sqlite p)") simp_all
  let ?p0 = "p\<lparr>sqlite := (sqlite p)\<lparr>m_transactionQueue := rest\<rparr>\<rparr>"
  let ?goal = "case r of
              None \<Rightarrow> next_all drv (p\<lparr>sqlite := s'\<rparr>)
            | Some e \<Rightarrow> p\<lparr>sqlite := s', handler := Aborted e\<rparr>"
  obtain rb db0 where b: "sqlite_beginTransaction drv (m_db (sqlite p)) = (rb, db0)"
    by (cases "sqlite_beginTransaction drv (m_db (sqlite p))")
  then have b0: "sqlite_beginTransaction drv (m_db (sqlite ?p0)) = (rb, db0)"
    by simp
  have start: "next_transaction drv p = await (AwaitBegin t rb) db0 ?p0"
    using queue b by (simp add: next_transaction_def)
  obtain r1 s1 where body: "transaction_body drv t (sqlite ?p0) = (r1, s1)"
    by (cases "transaction_body drv t (sqlite ?p0)")
  have d0: "deliveries ?p0 = []" using Suc.prems by simp
  note first = transaction_run [OF d0 body b0]
  from body have body': "transaction_body drv t ((sqlite p)\<lparr>m_transactionQueue := rest\<rparr>) = (r1, s1)"
    by simp
  show ?case
  proof (cases r1)
    case (Some e)
    with Suc.prems(2) queue body' have "r = Some e" "s' = s1"
      by (simp_all add: drain_transactionQueue_Cons)
    with first Some show ?thesis
      by (simp add: start)
  next
    case None
    with Suc.prems(2) queue body' have rec: "drain_transactionQueue drv s1 = (r, s')"
      by (simp add: drain_transactionQueue_Cons)
    from transaction_body_queue [OF body'] n have len: "n = length (m_transactionQueue (sqlite (p\<lparr>sqlite := s1\<rparr>)))"
      by simp
    have "reaches drv (next_transaction drv (p\<lparr>sqlite := s1\<rparr>)) ?goal"
      using Suc.hyps(1) [OF len, of ] Suc.prems(1) rec by (cases r) simp_all
    with first None show ?thesis
      by (auto simp: start intro: reaches_trans)
  qed
qed

lemma reads_run:
  assumes "deliveries p = []"
  shows "reaches drv (next_all drv p) (next_run drv (p\<lparr>sqlite := drain_allQueue drv (sqlite p)\<rparr>))"
  using assms
proof (induction "length (m_allQueue (sqlite p))" arbitrary: p)
  case 0
  then have "m_allQueue (sqlite p) = []" by simp
  then show ?case
    by (simp add: next_all_def drain_allQueue_Nil sqlite_same reaches_refl)
next
  case (Suc n)
  then obtain q rest where queue: "m_allQueue (sqlite p) = q # rest" and n: "length rest = n"
    by (cases "m_allQueue (sqlite p)") simp_all
  let ?s0 = "(sqlite p)\<lparr>m_allQueue := rest\<rparr>"
  let ?p0 = "p\<lparr>sqlite := ?s0\<rparr>"
  let ?p1 = "p\<lparr>sqlite := all_body drv q ?s0\<rparr>"
  obtain res db' where a: "SQLite_all drv (m_db (sqlite p)) (entry_query q) (entry_values q) = (res, db')"
    by (cases "SQLite_all drv (m_db (sqlite p)) (entry_query q) (entry_values q)")
  have start: "next_all drv p = await (AwaitAll q res) db' ?p0"
    using queue a by (simp add: next_all_def)
  have d0: "deliveries ?p0 = []" using Suc.prems by simp
  have dl: "step drv Deliver (await (AwaitAll q res) db' ?p0) =
      resume drv (AwaitAll q res) (?p0\<lparr>sqlite := (sqlite ?p0)\<lparr>m_db := db'\<rparr>, handler := AwaitAll q res\<rparr>)"
    by (rule deliver_await [OF d0])
  have "resume drv (AwaitAll q res) (?p0\<lparr>sqlite := (sqlite ?p0)\<lparr>m_db := db'\<rparr>, handler := AwaitAll q res\<rparr>) =
      next_all drv ?p1"
  proof (cases res)
    case (Inl e)
    have "next_all drv (settle (callback q) (Rejected e)
             (?p0\<lparr>sqlite := (sqlite ?p0)\<lparr>m_db := db'\<rparr>, handler := AwaitAll q (Inl e)\<rparr>)) =
          next_all drv ?p1"
      by (rule handler_irrelevant) (use a Inl in \<open>simp add: settle_def all_body_def\<close>)
    with Inl show ?thesis by simp
  next
    case (Inr result)
    have "next_all drv (settle (callback q) (Resolved (Some result))
             (?p0\<lparr>sqlite := (sqlite ?p0)\<lparr>m_db := db'\<rparr>, handler := AwaitAll q (Inr result)\<rparr>)) =
          next_all drv ?p1"
      by (rule handler_irrelevant) (use a Inr in \<open>simp add: settle_def all_body_def\<close>)
    with Inr show ?thesis by simp
  qed
  with dl have one: "step drv Deliver (next_all drv p) = next_all drv ?p1"
    by (simp only: start)
  have len: "n = length (m_allQueue (sqlite ?p1))"
    using n by (simp add: all_body_queue)
  have d1: "deliveries ?p1 = []" using Suc.prems by simp
  have "reaches drv (next_all drv ?p1) (next_run drv (p\<lparr>sqlite := drain_allQueue drv (sqlite p)\<rparr>))"
    using Suc.hyps(1) [OF len d1] queue by (simp add: drain_allQueue_Cons)
  then have "reaches drv (step drv Deliver (next_all drv p))
      (next_run drv (p\<lparr>sqlite := drain_allQueue drv (sqlite p)\<rparr>))"
    by (simp only: one)
  then show ?case
    by (rule reaches_deliver)
qed

lemma writes_run:
  assumes "deliveries p = []"
  shows "reaches drv (next_run drv p)
           (p\<lparr>sqlite := (drain_runQueue drv (sqlite p))\<lparr>m_timer_paused := False\<rparr>, handler := Idle\<rparr>)"
  using assms
proof (induction "length (m_runQueue (sqlite p))" arbitrary: p)
  case 0
  then have "m_runQueue (sqlite p) = []" by simp
  then show ?case
    by (simp add: next_run_def drain_runQueue_Nil reaches_refl)
next
  case (Suc n)
  then obtain q rest where queue: "m_runQueue (sqlite p) = q # rest" and n: "length rest = n"
    by (cases "m_runQueue (sqlite p)") simp_all
  let ?s0 = "(sqlite p)\<lparr>m_runQueue := rest\<rparr>"
  let ?p0 = "p\<lparr>sqlite := ?s0\<rparr>"
  let ?p1 = "p\<lparr>sqlite := run_body drv q ?s0\<rparr>"
  let ?goal = "p\<lparr>sqlite := (drain_runQueue drv (sqlite p))\<lparr>m_timer_paused := False\<rparr>, handler := Idle\<rparr>"
  obtain res db' where a: "SQLite_run drv (m_db (sqlite p)) (entry_query q) (entry_values q) = (res, db')"
    by (cases "SQLite_run drv (m_db (sqlite p)) (entry_query q) (entry_values q)")
  have start: "next_run drv p = await (AwaitRun q res) db' ?p0"
    using queue a by (simp add: next_run_def)
  have d0: "deliveries ?p0 = []" using Suc.prems by simp
  have dl: "step drv Deliver (await (AwaitRun q res) db' ?p0) =
      resume drv (AwaitRun q res) (?p0\<lparr>sqlite := (sqlite ?p0)\<lparr>m_db := db'\<rparr>, handler := AwaitRun q res\<rparr>)"
    by (rule deliver_await [OF d0])
  have "resume drv (AwaitRun q res) (?p0\<lparr>sqlite := (sqlite ?p0)\<lparr>m_db := db'\<rparr>, handler := AwaitRun q res\<rparr>) =
      next_run drv ?p1"
  proof (cases res)
    case (Inl e)
    have "next_run drv (settle (callback q) (Rejected e)
             (?p0\<lparr>sqlite := (sqlite ?p0)\<lparr>m_db := db'\<rparr>, handler := AwaitRun q (Inl e)\<rparr>)) =
          next_run drv ?p1"
      by (rule handler_irrelevant) (use a Inl in \<open>simp add: settle_def run_body_def\<close>)
    with Inl show ?thesis by simp
  next
    case (Inr result)
    have "next_run drv (settle (callback q) (Resolved (Some result))
             (?p0\<lparr>sqlite := (sqlite ?p0)\<lparr>m_db := db'\<rparr>, handler := AwaitRun q (Inr result)\<rparr>)) =
          next_run drv ?p1"
      by (rule handler_irrelevant) (use a Inr in \<open>simp add: settle_def run_body_def\<close>)
    with Inr show ?thesis by simp
  qed
  with dl have one: "step drv Deliver (next_run drv p) = next_run drv ?p1"
    by (simp only: start)
  have len: "n = length (m_runQueue (sqlite ?p1))"
    using n by (simp add: run_body_queue)
  have d1: "deliveries ?p1 = []" using Suc.prems by simp
  have "reaches drv (next_run drv ?p1) ?goal"
    using Suc.hyps(1) [OF len d1] queue by (simp add: drain_runQueue_Cons)
  then have "reaches drv (step drv Deliver (next_run drv p)) ?goal"
    by (simp only: one)
  then show ?case
    by (rule reaches_deliver)
qed

text \<open>
  When the timer fires on a process with no callback outstanding and the timer not
  paused, enough deliveries bring it to the result of \<open>tick\<close>: the handler is idle again,
  or it was left by the error that \<open>tick\<close> returns.
\<close>

theorem handler_steps_are_tick:
  assumes "deliveries p = []" and "\<not> m_timer_paused (sqlite p)"
  shows "\<exists>n. run_events drv (Timer_tick # replicate n Deliver) p =
           p\<lparr>sqlite := snd (tick drv (sqlite p)),
             handler := (case fst (tick drv (sqlite p)) of None \<Rightarrow> Idle | Some e \<Rightarrow> Aborted e)\<rparr>"
proof -
  let ?p0 = "p\<lparr>sqlite := (sqlite p)\<lparr>m_timer_paused := True\<rparr>\<rparr>"
  let ?goal = "p\<lparr>sqlite := snd (tick drv (sqlite p)),
             handler := (case fst (tick drv (sqlite p)) of None \<Rightarrow> Idle | Some e \<Rightarrow> Aborted e)\<rparr>"
  have d0: "deliveries ?p0 = []" using assms(1) by simp
  obtain r s1 where tx: "drain_transactionQueue drv (sqlite ?p0) = (r, s1)"
    by (cases "drain_transactionQueue drv (sqlite ?p0)")
  note first = transactions_run [OF d0 tx]
  have "reaches drv (next_transaction drv ?p0) ?goal"
  proof (cases r)
    case (Some e)
    with tx have "tick drv (sqlite p) = (Some e, s1)"
      by (simp add: tick_def)
    with first Some show ?thesis by simp
  next
    case None
    with tx have t: "tick drv (sqlite p) =
        (None, (drain_runQueue drv (drain_allQueue drv s1))\<lparr>m_timer_paused := False\<rparr>)"
      by (simp add: tick_def)
    let ?p1 = "p\<lparr>sqlite := s1\<rparr>"
    let ?p2 = "p\<lparr>sqlite := drain_allQueue drv s1\<rparr>"
    have "reaches drv (next_all drv ?p1) (next_run drv ?p2)"
      using reads_run [of ?p1 drv] assms(1) by simp
    moreover have "reaches drv (next_run drv ?p2) ?goal"
      using writes_run [of ?p2 drv] assms(1) t by simp
    moreover from first None have "reaches drv (next_transaction drv ?p0) (next_all drv ?p1)"
      by simp
    ultimately show ?thesis
      by (blast intro: reaches_trans)
  qed
  then obtain n where "run_events drv (replicate n Deliver) (next_transaction drv ?p0) = ?goal"
    unfolding reaches_def by blast
  with assms(2) have "run_events drv (Timer_tick # replicate n Deliver) p = ?goal"
    by simp
  then show ?thesis
    by blast
qed

section \<open>A drain cycle that an error cuts short\<close>

text \<open>
  A drain cycle on the driver of the examples, with the statements the driver executed
  and the results the callbacks received: the statement of the transaction is executed
  first, then the two reads, then the write.
\<close>

lemma drain_cycle_example:
  "tick test_driver
     (fold submit
        [Query (1::nat) ''INSERT INTO accounts (id) VALUES (1)'' None,
         Query 2 ''SELECT id FROM accounts'' None,
         Transaction 3
           [\<lparr>bulk_query = ''INSERT INTO accounts (id) VALUES (2)'', bulk_values = None\<rparr>],
         Query 4 ''select email from accounts'' None]
        (new_SQLite test_db0)) =
     (None,
      \<lparr> m_db = \<lparr>in_transaction = False, is_closed = False,
                executed = [''INSERT INTO accounts (id) VALUES (2)'', ''SELECT id FROM accounts'',
                            ''select email from accounts'',
                            ''INSERT INTO accounts (id) VALUES (1)'']\<rparr>,
        m_timer_paused = False, m_transactionQueue = [], m_runQueue = [], m_allQueue = [],
        settled =
          [(3, Resolved None),
           (2, Resolved (Some (2, test_rows))),
           (4, Resolved (Some (2, test_rows))),
           (1, Resolved (Some (4, [])))] \<rparr>)"
  by (simp add: scheduler_simps test_driver_simps test_rows_def)

text \<open>
  Claim C1 says that for every set of operations submitted before a tick, one drain
  cycle executes all queued transactions, then all queued reads, then all queued
  writes, and resolves each handle. The handler is left by the error of a rejected
  \<^verbatim>\<open>ROLLBACK\<close> (the \<^verbatim>\<open>await\<close> in the \<^verbatim>\<open>catch\<close> clause of the first loop, as in claim
  C3), and then the loops of the reads and of the writes do not run. Here the reads R1
  and R2 (handles 1 and 2), the write W1 (handle 3) and a transaction (handle 4) whose
  statement fails and rolls the transaction back are submitted to a new scheduler on the
  driver of the examples. The run of the handler settles no handle and executes no
  statement: R1, R2 and W1 are still queued and the timer is paused. The same holds
  with the handler taken one \<^verbatim>\<open>await\<close> at a time, and the next tick of the timer does
  not start another cycle.
\<close>

theorem drain_cycle_cut_short:
  "tick test_driver
     (fold submit
        [Query (1::nat) ''SELECT id FROM accounts'' None,
         Query 2 ''select email from accounts'' None,
         Query 3 ''INSERT INTO accounts (id) VALUES (1)'' None,
         Transaction 4
           [\<lparr>bulk_query = ''INSERT OR ROLLBACK INTO accounts (id) VALUES (1)'',
             bulk_values = None\<rparr>]]
        (new_SQLite test_db0)) =
     (Some (Error ''SQLITE_ERROR: cannot rollback - no transaction is active''),
      \<lparr> m_db = \<lparr>in_transaction = False, is_closed = False, executed = []\<rparr>,
        m_timer_paused = True, m_transactionQueue = [],
        m_runQueue =
          [\<lparr>callback = 3, entry_query = ''INSERT INTO accounts (id) VALUES (1)'',
            entry_values = None\<rparr>],
        m_allQueue =
          [\<lparr>callback = 1, entry_query = ''SELECT id FROM accounts'', entry_values = None\<rparr>,
           \<lparr>callback = 2, entry_query = ''select email from accounts'', entry_values = None\<rparr>],
        settled = [] \<rparr>)
   \<and> run_events test_driver
       [Submit (Query (1::nat) ''SELECT id FROM accounts'' None),
        Submit (Query 2 ''select email from accounts'' None),
        Submit (Query 3 ''INSERT INTO accounts (id) VALUES (1)'' None),
        Submit (Transaction 4
           [\<lparr>bulk_query = ''INSERT OR ROLLBACK INTO accounts (id) VALUES (1)'',
             bulk_values = None\<rparr>]),
        Timer_tick, Deliver, Deliver, Deliver, Timer_tick, Deliver]
       (new_Process test_db0) =
     \<lparr> sqlite =
         \<lparr> m_db = \<lparr>in_transaction = False, is_closed = False, executed = []\<rparr>,
           m_timer_paused = True, m_transactionQueue = [],
           m_runQueue =
             [\<lparr>callback = 3, entry_query = ''INSERT INTO accounts (id) VALUES (1)'',
               entry_values = None\<rparr>],
           m_allQueue =
             [\<lparr>callback = 1, entry_query = ''SELECT id FROM accounts'', entry_values = None\<rparr>,
              \<lparr>callback = 2, entry_query = ''select email from accounts'',
                entry_values = None\<rparr>],
           settled = [] \<rparr>,
       handler = Aborted (Error ''SQLITE_ERROR: cannot rollback - no transaction is active''),
       deliveries = [], close_called = False, close_result = None \<rparr>"
proof (intro conjI)
  show "tick test_driver
     (fold submit
        [Query (1::nat) ''SELECT id FROM accounts'' None,
         Query 2 ''select email from accounts'' None,
         Query 3 ''INSERT INTO accounts (id) VALUES (1)'' None,
         Transaction 4
           [\<lparr>bulk_query = ''INSERT OR ROLLBACK INTO accounts (id) VALUES (1)'',
             bulk_values = None\<rparr>]]
        (new_SQLite test_db0)) =
     (Some (Error ''SQLITE_ERROR: cannot rollback - no transaction is active''),
      \<lparr> m_db = \<lparr>in_transaction = False, is_closed = False, executed = []\<rparr>,
        m_timer_paused = True, m_transactionQueue = [],
        m_runQueue =
          [\<lparr>callback = 3, entry_query = ''INSERT INTO accounts (id) VALUES (1)'',
            entry_values = None\<rparr>],
        m_allQueue =
          [\<lparr>callback = 1, entry_query = ''SELECT id FROM accounts'', entry_values = None\<rparr>,
           \<lparr>callback = 2, entry_query = ''select email from accounts'', entry_values = None\<rparr>],
        settled = [] \<rparr>)"
    by (simp add: scheduler_simps test_driver_simps)
  show "run_events test_driver
       [Submit (Query (1::nat) ''SELECT id FROM accounts'' None),
        Submit (Query 2 ''select email from accounts'' None),
        Submit (Query 3 ''INSERT INTO accounts (id) VALUES (1)'' None),
        Submit (Transaction 4
           [\<lparr>bulk_query = ''INSERT OR ROLLBACK INTO accounts (id) VALUES (1)'',
             bulk_values = None\<rparr>]),
        Timer_tick, Deliver, Deliver, Deliver, Timer_tick, Deliver]
       (new_Process test_db0) =
     \<lparr> sqlite =
         \<lparr> m_db = \<lparr>in_transaction = False, is_closed = False, executed = []\<rparr>,
           m_timer_paused = True, m_transactionQueue = [],
           m_runQueue =
             [\<lparr>callback = 3, entry_query = ''INSERT INTO accounts (id) VALUES (1)'',
               entry_values = None\<rparr>],
           m_allQueue =
             [\<lparr>callback = 1, entry_query = ''SELECT id FROM accounts'', entry_values = None\<rparr>,
              \<lparr>callback = 2, entry_query = ''select email from accounts'',
                entry_values = None\<rparr>],
           settled = [] \<rparr>,
       handler = Aborted (Error ''SQLITE_ERROR: cannot rollback - no transaction is active''),
       deliveries = [], close_called = False, close_result = None \<rparr>"
    by (simp add: new_Process_def next_transaction_def next_statement_def catch_error_def
        await_def scheduler_simps test_driver_simps)
qed

section \<open>Properties of createTable\<close>

lemma emit_error_returns:
  "emit_error listeners error = None \<longleftrightarrow>
   listeners \<noteq> [] \<and> (\<forall>l\<in>set listeners. l error = None)"
proof -
  have "call_listeners listeners error = None \<longleftrightarrow> (\<forall>l\<in>set listeners. l error = None)"
    by (induction listeners) (auto split: option.splits)
  then show ?thesis
    by (simp add: emit_error_def)
qed

text \<open>
  Claim C4 says that the promise of \<^verbatim>\<open>createTable\<close> is resolved even when the
  statements fail, on every backend, and that the failure is reported only by the
  \<^verbatim>\<open>'error'\<close> event. With no listener registered for \<^verbatim>\<open>'error'\<close>, \<^verbatim>\<open>emit\<close> throws the
  error inside the \<^verbatim>\<open>catch\<close> clause and the promise is rejected with it: here on MySQL,
  for the accounts table, on a server that refuses the \<^verbatim>\<open>CREATE TABLE\<close> statement.
\<close>

theorem createTable_without_listener_counterexample:
  "Database_createTable [] (MySQL_transaction_promise test_pool) MYSQL ''accounts''
     (accounts_columns ''bigint(20) unsigned'' ''longtext'') [''id'']
     (Some ''ENGINE=InnoDB'') [] =
   (Some (Rejected (Error ''ER_TABLEACCESS_DENIED_ERROR'')),
    [Error ''ER_TABLEACCESS_DENIED_ERROR''],
    [''START TRANSACTION'', ''ROLLBACK'', ''release''])"
  by (simp add: Database_createTable_def createTable_def emit_error_def
      MySQL_transaction_promise_def MySQL_transaction_def mysql_query_def test_pool_def
      test_conn_query_def startsWith_def table_text)

text \<open>
  Claim C4, amended. \<^verbatim>\<open>createTable\<close> of a backend awaits the transaction of the table
  statement and then, when there are index statements, the transaction of the index
  statements. When at least one listener is registered for \<^verbatim>\<open>'error'\<close> and no listener
  throws, its promise is never rejected: when either transaction is rejected, the promise
  is resolved and the error is passed to \<^verbatim>\<open>emit\<close>, once (and after a rejected table
  transaction the index statements are not run); when the transactions are resolved, it is
  resolved and nothing is emitted; it stays pending exactly when a promise of the
  backend's \<^verbatim>\<open>transaction\<close> is never settled. With no listener registered for
  \<^verbatim>\<open>'error'\<close>, the promise is rejected with the error of the rejected transaction.
\<close>

theorem createTable_reports_by_event:
  "(listeners \<noteq> [] \<and> (\<forall>l\<in>set listeners. \<forall>e. l e = None) \<longrightarrow>
      (\<forall>e. fst (Database_createTable listeners transaction dbType name flds primaryKey
                  tableOptions db) \<noteq> Some (Rejected e)) \<and>
      Database_createTable listeners transaction dbType name flds primaryKey tableOptions db =
        (case transaction db
                [\<lparr>bulk_query = table (prepareCreateTable dbType name flds primaryKey tableOptions),
                  bulk_values = None\<rparr>] of
           (None, db1) \<Rightarrow> (None, [], db1)
         | (Some (Rejected error), db1) \<Rightarrow> (Some (Resolved ()), [error], db1)
         | (Some (Resolved u), db1) \<Rightarrow>
             if indexes (prepareCreateTable dbType name flds primaryKey tableOptions) = []
             then (Some (Resolved ()), [], db1)
             else
               (case transaction db1
                       (map (\<lambda>query. \<lparr>bulk_query = query, bulk_values = None\<rparr>)
                          (indexes (prepareCreateTable dbType name flds primaryKey tableOptions))) of
                  (None, db2) \<Rightarrow> (None, [], db2)
                | (Some (Rejected error), db2) \<Rightarrow> (Some (Resolved ()), [error], db2)
                | (Some (Resolved u), db2) \<Rightarrow> (Some (Resolved ()), [], db2)))) \<and>
   (listeners = [] \<longrightarrow>
      Database_createTable listeners transaction dbType name flds primaryKey tableOptions db =
        (case transaction db
                [\<lparr>bulk_query = table (prepareCreateTable dbType name flds primaryKey tableOptions),
                  bulk_values = None\<rparr>] of
           (None, db1) \<Rightarrow> (None, [], db1)
         | (Some (Rejected error), db1) \<Rightarrow> (Some (Rejected error), [error], db1)
         | (Some (Resolved u), db1) \<Rightarrow>
             if indexes (prepareCreateTable dbType name flds primaryKey tableOptions) = []
             then (Some (Resolved ()), [], db1)
             else
               (case transaction db1
                       (map (\<lambda>query. \<lparr>bulk_query = query, bulk_values = None\<rparr>)
                          (indexes (prepareCreateTable dbType name flds primaryKey tableOptions))) of
                  (None, db2) \<Rightarrow> (None, [], db2)
                | (Some (Rejected error), db2) \<Rightarrow> (Some (Rejected error), [error], db2)
                | (Some (Resolved u), db2) \<Rightarrow> (Some (Resolved ()), [], db2))))"
proof (intro conjI impI)
  assume "listeners \<noteq> [] \<and> (\<forall>l\<in>set listeners. \<forall>e. l e = None)"
  then have emit: "\<And>error. emit_error listeners error = None"
    by (simp add: emit_error_returns)
  show "\<forall>e. fst (Database_createTable listeners transaction dbType name flds primaryKey
                  tableOptions db) \<noteq> Some (Rejected e)"
    by (simp add: Database_createTable_def emit
        split: prod.splits option.splits settlement.splits)
  show "Database_createTable listeners transaction dbType name flds primaryKey tableOptions db =
        (case transaction db
                [\<lparr>bulk_query = table (prepareCreateTable dbType name flds primaryKey tableOptions),
                  bulk_values = None\<rparr>] of
           (None, db1) \<Rightarrow> (None, [], db1)
         | (Some (Rejected error), db1) \<Rightarrow> (Some (Resolved ()), [error], db1)
         | (Some (Resolved u), db1) \<Rightarrow>
             if indexes (prepareCreateTable dbType name flds primaryKey tableOptions) = []
             then (Some (Resolved ()), [], db1)
             else
               (case transaction db1
                       (map (\<lambda>query. \<lparr>bulk_query = query, bulk_values = None\<rparr>)
                          (indexes (prepareCreateTable dbType name flds primaryKey tableOptions))) of
                  (None, db2) \<Rightarrow> (None, [], db2)
                | (Some (Rejected error), db2) \<Rightarrow> (Some (Resolved ()), [error], db2)
                | (Some (Resolved u), db2) \<Rightarrow> (Some (Resolved ()), [], db2)))"
    by (simp add: Database_createTable_def createTable_def Let_def emit
        split: prod.splits option.splits settlement.splits)
next
  assume "listeners = []"
  then have emit: "\<And>error. emit_error listeners error = Some error"
    by (simp add: emit_error_def)
  show "Database_createTable listeners transaction dbType name flds primaryKey tableOptions db =
        (case transaction db
                [\<lparr>bulk_query = table (prepareCreateTable dbType name flds primaryKey tableOptions),
                  bulk_values = None\<rparr>] of
           (None, db1) \<Rightarrow> (None, [], db1)
         | (Some (Rejected error), db1) \<Rightarrow> (Some (Rejected error), [error], db1)
         | (Some (Resolved u), db1) \<Rightarrow>
             if indexes (prepareCreateTable dbType name flds primaryKey tableOptions) = []
             then (Some (Resolved ()), [], db1)
             else
               (case transaction db1
                       (map (\<lambda>query. \<lparr>bulk_query = query, bulk_values = None\<rparr>)
                          (indexes (prepareCreateTable dbType name flds primaryKey tableOptions))) of
                  (None, db2) \<Rightarrow> (None, [], db2)
                | (Some (Rejected error), db2) \<Rightarrow> (Some (Rejected error), [error], db2)
                | (Some (Resolved u), db2) \<Rightarrow> (Some (Resolved ()), [], db2)))"
    by (simp add: Database_createTable_def createTable_def Let_def emit
        split: prod.splits option.splits settlement.splits)
qed

text \<open>
  The accounts table on the second server of the examples, where the table statement
  succeeds and the statement of the unique index fails. With one listener registered the
  promise is resolved and the error is emitted; with none it is rejected with the error.
  In both cases the table transaction is committed and the index transaction is rolled
  back.
\<close>

theorem createTable_reports_by_event_witness:
  "Database_createTable [\<lambda>e. None] (MySQL_transaction_promise test_pool_duplicates) MYSQL
     ''accounts'' (accounts_columns ''bigint(20) unsigned'' ''longtext'') [''id'']
     (Some ''ENGINE=InnoDB'') [] =
   (Some (Resolved ()),
    [Error ''ER_DUP_ENTRY''],
    [''START TRANSACTION'',
     table (prepareCreateTable MYSQL ''accounts''
              (accounts_columns ''bigint(20) unsigned'' ''longtext'') [''id'']
              (Some ''ENGINE=InnoDB'')),
     ''COMMIT'', ''release'', ''START TRANSACTION'', ''ROLLBACK'', ''release''])
   \<and> Database_createTable [] (MySQL_transaction_promise test_pool_duplicates) MYSQL
     ''accounts'' (accounts_columns ''bigint(20) unsigned'' ''longtext'') [''id'']
     (Some ''ENGINE=InnoDB'') [] =
   (Some (Rejected (Error ''ER_DUP_ENTRY'')),
    [Error ''ER_DUP_ENTRY''],
    [''START TRANSACTION'',
     table (prepareCreateTable MYSQL ''accounts''
              (accounts_columns ''bigint(20) unsigned'' ''longtext'') [''id'']
              (Some ''ENGINE=InnoDB'')),
     ''COMMIT'', ''release'', ''START TRANSACTION'', ''ROLLBACK'', ''release''])"
proof -
  let ?flds = "accounts_columns ''bigint(20) unsigned'' ''longtext''"
  let ?P = "prepareCreateTable MYSQL ''accounts'' ?flds [''id''] (Some ''ENGINE=InnoDB'')"
  let ?tx = "MySQL_transaction_promise test_pool_duplicates"
  have listeners: "[\<lambda>e::error. None :: error option] \<noteq> [] \<and>
    (\<forall>l\<in>set [\<lambda>e::error. None :: error option]. \<forall>e. l e = None)"
    by simp
  have indexes: "indexes ?P =
      [''CREATE UNIQUE INDEX IF NOT EXISTS accounts_unique_email ON accounts (email);'']"
    by (simp add: prepareCreateTable_def l_unique_def accounts_columns_def format_unique_index)
  have table_stmt: "\<not> startsWith (table ?P) ''CREATE UNIQUE INDEX''"
    by (simp add: table_text startsWith_def)
  have first: "?tx [] [\<lparr>bulk_query = table ?P, bulk_values = None\<rparr>] =
      (Some (Resolved ()), [''START TRANSACTION'', table ?P, ''COMMIT'', ''release''])"
    using table_stmt
    by (simp add: MySQL_transaction_promise_def MySQL_transaction_def mysql_query_def
        test_pool_duplicates_def test_conn_query_duplicates_def)
  have second: "?tx [''START TRANSACTION'', table ?P, ''COMMIT'', ''release'']
      [\<lparr>bulk_query =
          ''CREATE UNIQUE INDEX IF NOT EXISTS accounts_unique_email ON accounts (email);'',
        bulk_values = None\<rparr>] =
      (Some (Rejected (Error ''ER_DUP_ENTRY'')),
       [''START TRANSACTION'', table ?P, ''COMMIT'', ''release'', ''START TRANSACTION'',
        ''ROLLBACK'', ''release''])"
    by (simp add: MySQL_transaction_promise_def MySQL_transaction_def mysql_query_def
        test_pool_duplicates_def test_conn_query_duplicates_def startsWith_def)
  from createTable_reports_by_event [where listeners = "[\<lambda>e. None]" and transaction = ?tx
      and dbType = MYSQL and name = "''accounts''" and flds = ?flds
      and primaryKey = "[''id'']" and tableOptions = "Some ''ENGINE=InnoDB''" and db = "[]"]
    listeners
  have "Database_createTable [\<lambda>e. None] ?tx MYSQL ''accounts'' ?flds [''id'']
     (Some ''ENGINE=InnoDB'') [] =
   (Some (Resolved ()), [Error ''ER_DUP_ENTRY''],
    [''START TRANSACTION'', table ?P, ''COMMIT'', ''release'', ''START TRANSACTION'',
     ''ROLLBACK'', ''release''])"
    by (simp add: first second indexes)
  moreover
  from createTable_reports_by_event [where listeners = "[]" and transaction = ?tx
      and dbType = MYSQL and name = "''accounts''" and flds = ?flds
      and primaryKey = "[''id'']" and tableOptions = "Some ''ENGINE=InnoDB''" and db = "[]"]
  have "Database_createTable [] ?tx MYSQL ''accounts'' ?flds [''id'']
     (Some ''ENGINE=InnoDB'') [] =
   (Some (Rejected (Error ''ER_DUP_ENTRY'')), [Error ''ER_DUP_ENTRY''],
    [''START TRANSACTION'', table ?P, ''COMMIT'', ''release'', ''START TRANSACTION'',
     ''ROLLBACK'', ''release''])"
    by (simp add: first second indexes)
  ultimately show ?thesis by simp
qed

section \<open>Properties of the counts\<close>

lemma tick_single_read:
  assumes "m_transactionQueue st = []" "m_allQueue st = []" "m_runQueue st = []"
      and "startsWith (toLowerCase query) ''select''"
  shows "settled (snd (tick drv (SQLite_query h query vals st))) =
         settled st @
         [(h, case db_all drv (m_db st) query vals of
                (Inl e, db') \<Rightarrow> Rejected e
              | (Inr rows, db') \<Rightarrow> Resolved (Some (int (length rows), rows)))]"
  using assms
  by (simp add: SQLite_query_def tick_def drain_transactionQueue_Nil drain_allQueue_Cons
      drain_allQueue_Nil drain_runQueue_Nil all_body_def SQLite_all_def call_callback_def
      split: prod.splits sum.splits)

lemma tick_single_write:
  assumes "m_transactionQueue st = []" "m_allQueue st = []" "m_runQueue st = []"
      and "\<not> startsWith (toLowerCase query) ''select''"
  shows "settled (snd (tick drv (SQLite_query h query vals st))) =
         settled st @
         [(h, case db_run drv (m_db st) query vals of
                (Inl e, db') \<Rightarrow> Rejected e
              | (Inr this, db') \<Rightarrow>
                  Resolved (Some
                    (if startsWith (toLowerCase query) ''insert'' then lastID this
                     else if startsWith (toLowerCase query) ''update'' \<or>
                             startsWith (toLowerCase query) ''delete'' then changes this
                     else 0, [])))]"
  using assms
  by (simp add: SQLite_query_def tick_def drain_transactionQueue_Nil drain_runQueue_Cons
      drain_allQueue_Nil drain_runQueue_Nil run_body_def SQLite_run_def call_callback_def
      split: prod.splits sum.splits)

lemma MySQL_query_count:
  "fst (MySQL_query pool_drv pool query vals) =
     (case fst (pool_query pool_drv pool query (case vals of Some vs \<Rightarrow> vs | None \<Rightarrow> [])) of
        Inl error \<Rightarrow> Inl error
      | Inr (Ok packet) \<Rightarrow>
          Inr (if changedRows packet \<noteq> 0 then Some (changedRows packet)
               else if affectedRows packet \<noteq> 0 then Some (affectedRows packet)
               else if insertId packet \<noteq> 0 then Some (insertId packet)
               else None, Ok packet)
      | Inr (Rows rows) \<Rightarrow> Inr (Some (int (length rows)), Rows rows))"
  by (simp add: MySQL_query_def or_else_def split: prod.splits sum.splits mysql_results.splits)

text \<open>
  Claim C9, amended. On SQLite the count follows the verb: a query submitted to a
  scheduler with empty queues is settled by the next run of the handler, and when the
  driver does not fail, a statement whose lower-cased text starts with \<^verbatim>\<open>select\<close> yields
  the number of rows returned, with the rows; one that starts with \<^verbatim>\<open>insert\<close> yields
  \<^verbatim>\<open>lastID\<close>, one that starts with \<^verbatim>\<open>update\<close> or \<^verbatim>\<open>delete\<close> yields \<^verbatim>\<open>changes\<close>, and any
  other yields 0, each with no rows. On MySQL the count does not depend on the text of the
  statement: for results without rows of which \<^verbatim>\<open>changedRows\<close>, \<^verbatim>\<open>affectedRows\<close> or
  \<^verbatim>\<open>insertId\<close> is not zero, it is the first of the three, in this order, that is not
  zero; for rows it is their number.
\<close>

theorem query_count:
  assumes "m_transactionQueue st = []" and "m_allQueue st = []" and "m_runQueue st = []"
  shows "settled (snd (tick drv (SQLite_query h query vals st))) =
         settled st @
         [(h, if startsWith (toLowerCase query) ''select'' then
                (case db_all drv (m_db st) query vals of
                   (Inl e, db') \<Rightarrow> Rejected e
                 | (Inr rows, db') \<Rightarrow> Resolved (Some (int (length rows), rows)))
              else
                (case db_run drv (m_db st) query vals of
                   (Inl e, db') \<Rightarrow> Rejected e
                 | (Inr this, db') \<Rightarrow>
                     Resolved (Some
                       (if startsWith (toLowerCase query) ''insert'' then lastID this
                        else if startsWith (toLowerCase query) ''update'' \<or>
                                startsWith (toLowerCase query) ''delete'' then changes this
                        else 0, []))))]
         \<and> (case fst (pool_query pool_drv pool query (case vals of Some vs \<Rightarrow> vs | None \<Rightarrow> [])) of
              Inl error \<Rightarrow> fst (MySQL_query pool_drv pool query vals) = Inl error
            | Inr (Rows rows) \<Rightarrow>
                fst (MySQL_query pool_drv pool query vals) = Inr (Some (int (length rows)), Rows rows)
            | Inr (Ok packet) \<Rightarrow>
                changedRows packet \<noteq> 0 \<or> affectedRows packet \<noteq> 0 \<or> insertId packet \<noteq> 0 \<longrightarrow>
                fst (MySQL_query pool_drv pool query vals) =
                  Inr (Some (if changedRows packet \<noteq> 0 then changedRows packet
                             else if affectedRows packet \<noteq> 0 then affectedRows packet
                             else insertId packet), Ok packet))"
proof -
  have mysql: "(case fst (pool_query pool_drv pool query (case vals of Some vs \<Rightarrow> vs | None \<Rightarrow> [])) of
              Inl error \<Rightarrow> fst (MySQL_query pool_drv pool query vals) = Inl error
            | Inr (Rows rows) \<Rightarrow>
                fst (MySQL_query pool_drv pool query vals) = Inr (Some (int (length rows)), Rows rows)
            | Inr (Ok packet) \<Rightarrow>
                changedRows packet \<noteq> 0 \<or> affectedRows packet \<noteq> 0 \<or> insertId packet \<noteq> 0 \<longrightarrow>
                fst (MySQL_query pool_drv pool query vals) =
                  Inr (Some (if changedRows packet \<noteq> 0 then changedRows packet
                             else if affectedRows packet \<noteq> 0 then affectedRows packet
                             else insertId packet), Ok packet))"
    by (simp add: MySQL_query_count split: sum.splits mysql_results.splits)
  show ?thesis
  proof (cases "startsWith (toLowerCase query) ''select''")
    case True
    with tick_single_read [OF assms True, of drv h vals] mysql
    show ?thesis by simp
  next
    case False
    with tick_single_write [OF assms False, of drv h vals] mysql
    show ?thesis by simp
  qed
qed

text \<open>
  Claim C9 says that on both backends an \<^verbatim>\<open>insert\<close> yields the last-inserted id (or 1).
  On MySQL an insert of three rows whose first generated id is 7 yields the count 3, the
  number of affected rows.
\<close>

theorem MySQL_insert_count_counterexample:
  "fst (MySQL_query test_pool [] ''INSERT INTO accounts (id) VALUES (NULL), (NULL), (NULL)'' None) =
     Inr (Some 3, Ok \<lparr>affectedRows = 3, insertId = 7, changedRows = 0\<rparr>)"
  by (simp add: MySQL_query_def or_else_def test_pool_def test_pool_query_def startsWith_def
      toLowerCase_def upper_letters_def lower_letters_def)

text \<open>
  An \<^verbatim>\<open>UPDATE\<close> on the drivers of the examples: SQLite yields \<^verbatim>\<open>changes\<close>, which is 1;
  MySQL, where the statement matches two rows and changes one, yields \<^verbatim>\<open>changedRows\<close>,
  which is 1. A \<^verbatim>\<open>SELECT\<close> on the drivers of the examples yields the number of rows.
\<close>

theorem query_count_witness:
  "settled (snd (tick test_driver
      (SQLite_query (1::nat) ''UPDATE accounts SET email = 0'' None (new_SQLite test_db0)))) =
     [(1, Resolved (Some (1, [])))]
   \<and> fst (MySQL_query test_pool [] ''UPDATE accounts SET email = 0'' None) =
     Inr (Some 1, Ok \<lparr>affectedRows = 2, insertId = 0, changedRows = 1\<rparr>)
   \<and> settled (snd (tick test_driver
      (SQLite_query (2::nat) ''SELECT n FROM accounts'' None (new_SQLite test_db0)))) =
     [(2, Resolved (Some (2, test_rows)))]
   \<and> fst (MySQL_query test_pool [] ''SELECT n FROM accounts'' None) =
     Inr (Some 2, Rows [Map.empty(''n'' \<mapsto> JNumber 1), Map.empty(''n'' \<mapsto> JNumber 2)])"
proof -
  let ?st = "new_SQLite test_db0 :: (nat, test_db) SQLite"
  have queues: "m_transactionQueue ?st = []" "m_allQueue ?st = []" "m_runQueue ?st = []"
    by (simp_all add: new_SQLite_def)
  have verb: "\<not> startsWith (toLowerCase ''UPDATE accounts SET email = 0'') ''select''"
    "\<not> startsWith (toLowerCase ''UPDATE accounts SET email = 0'') ''insert''"
    "startsWith (toLowerCase ''UPDATE accounts SET email = 0'') ''update''"
    "startsWith (toLowerCase ''SELECT n FROM accounts'') ''select''"
    by (simp_all add: startsWith_def toLowerCase_def upper_letters_def lower_letters_def)
  have run: "db_run test_driver (m_db ?st) ''UPDATE accounts SET email = 0'' None =
      (Inr \<lparr>lastID = 1, changes = 1\<rparr>,
       \<lparr>in_transaction = False, is_closed = False,
         executed = [''UPDATE accounts SET email = 0'']\<rparr>)"
    by (simp add: new_SQLite_def test_driver_def test_run_def test_db0_def startsWith_def
        toLowerCase_def upper_letters_def lower_letters_def)
  have all: "db_all test_driver (m_db ?st) ''SELECT n FROM accounts'' None =
      (Inr test_rows,
       \<lparr>in_transaction = False, is_closed = False, executed = [''SELECT n FROM accounts'']\<rparr>)"
    by (simp add: new_SQLite_def test_driver_def test_all_def test_db0_def)
  have pool: "pool_query test_pool [] ''UPDATE accounts SET email = 0'' [] =
      (Inr (Ok \<lparr>affectedRows = 2, insertId = 0, changedRows = 1\<rparr>),
       [''UPDATE accounts SET email = 0''])"
    "pool_query test_pool [] ''SELECT n FROM accounts'' [] =
      (Inr (Rows [Map.empty(''n'' \<mapsto> JNumber 1), Map.empty(''n'' \<mapsto> JNumber 2)]),
       [''SELECT n FROM accounts''])"
    by (simp_all add: test_pool_def test_pool_query_def startsWith_def
        toLowerCase_def upper_letters_def lower_letters_def)
  have settled: "settled ?st = []"
    by (simp add: new_SQLite_def)
  from query_count [OF queues, where drv = test_driver and h = 1 and vals = None
      and query = "''UPDATE accounts SET email = 0''" and pool_drv = test_pool and pool = "[]"]
    verb run pool settled
  have update: "settled (snd (tick test_driver
      (SQLite_query (1::nat) ''UPDATE accounts SET email = 0'' None ?st))) =
     [(1, Resolved (Some (1, [])))]
   \<and> fst (MySQL_query test_pool [] ''UPDATE accounts SET email = 0'' None) =
     Inr (Some 1, Ok \<lparr>affectedRows = 2, insertId = 0, changedRows = 1\<rparr>)"
    by simp
  from query_count [OF queues, where drv = test_driver and h = 2 and vals = None
      and query = "''SELECT n FROM accounts''" and pool_drv = test_pool and pool = "[]"]
    verb all pool settled
  have select: "settled (snd (tick test_driver
      (SQLite_query (2::nat) ''SELECT n FROM accounts'' None ?st))) =
     [(2, Resolved (Some (2, test_rows)))]
   \<and> fst (MySQL_query test_pool [] ''SELECT n FROM accounts'' None) =
     Inr (Some 2, Rows [Map.empty(''n'' \<mapsto> JNumber 1), Map.empty(''n'' \<mapsto> JNumber 2)])"
    by (simp add: test_rows_def)
  from update select show ?thesis by simp
qed

section \<open>Properties of getPragma\<close>

text \<open>
  The computation of \<^verbatim>\<open>getPragma\<close> on the result \<^verbatim>\<open>[count, rows]\<close> of its query: it
  reads \<^verbatim>\<open>rows[0]\<close> whatever the count is. With no row it throws the \<^verbatim>\<open>TypeError\<close> of
  that access. With at least one row it returns the value of the first row when the count
  is 1, the values of the column in all rows when the first one is truthy, and the rows
  otherwise.
\<close>

lemma getPragma_result_cases:
  "getPragma_result option (count, []) = Inl TypeError
   \<and> getPragma_result option (count, first # rest) =
       (if count = 1 then Inr (Single (first (toLowerCase option)))
        else if truthy (first (toLowerCase option))
        then Inr (Column (map (\<lambda>elem. elem (toLowerCase option)) (first # rest)))
        else Inr (AllRows (first # rest)))
   \<and> ((\<exists>v. getPragma_result option (count, rows) = Inr v) \<longleftrightarrow> rows \<noteq> [])
   \<and> getPragma_settled option (Rejected e) = Inl e"
  by (cases rows) (simp_all add: getPragma_result_def)

text \<open>
  The query of \<^verbatim>\<open>getPragma\<close> never starts with \<^verbatim>\<open>select\<close>, so the method \<^verbatim>\<open>query\<close>
  puts it on the queue of \<^verbatim>\<open>run\<close>.
\<close>

lemma getPragma_query_is_write:
  "\<not> startsWith (toLowerCase (getPragma_query option)) ''select''"
  "\<not> startsWith (toLowerCase (getPragma_query option)) ''insert''"
  "\<not> startsWith (toLowerCase (getPragma_query option)) ''update''"
  "\<not> startsWith (toLowerCase (getPragma_query option)) ''delete''"
  by (simp_all add: getPragma_query_def startsWith_def toLowerCase_def upper_letters_def
      lower_letters_def)

lemma tick_getPragma_query:
  assumes "m_transactionQueue st = []" and "m_allQueue st = []" and "m_runQueue st = []"
  shows "tick drv (SQLite_query h (getPragma_query option) None st) =
     (None,
      st\<lparr> m_timer_paused := False,
          m_db := snd (db_run drv (m_db st) (getPragma_query option) None),
          settled := settled st @
            [(h, case fst (db_run drv (m_db st) (getPragma_query option) None) of
                   Inl e \<Rightarrow> Rejected e
                 | Inr this \<Rightarrow> Resolved (Some (0, [])))] \<rparr>)"
  using assms getPragma_query_is_write [of option]
  by (cases st)
     (simp add: SQLite_query_def tick_def drain_transactionQueue_Nil drain_runQueue_Cons
      drain_allQueue_Nil drain_runQueue_Nil run_body_def SQLite_run_def call_callback_def
      split: prod.splits sum.splits)

text \<open>
  Claim C10 says that \<^verbatim>\<open>getPragma\<close> returns a value when the PRAGMA query yields at
  least one row: the single value, the values of the column, or the rows. \<^verbatim>\<open>getPragma\<close>
  sends its query through \<^verbatim>\<open>this.query\<close>, which puts every statement that does not
  start with \<^verbatim>\<open>select\<close> on the queue of \<^verbatim>\<open>run\<close>; \<^verbatim>\<open>run\<close> resolves with the count 0 and
  no rows, whatever the statement yields. So for every driver and every option,
  \<^verbatim>\<open>getPragma\<close> on a scheduler with empty queues never returns a value: it throws the
  error of the driver when the driver rejects the statement, and the \<^verbatim>\<open>TypeError\<close> of
  reading \<^verbatim>\<open>rows[0][option]\<close> when the driver executes it. The statement is executed
  once, by \<^verbatim>\<open>run\<close>.
\<close>

theorem getPragma_never_returns:
  assumes "m_transactionQueue st = []" and "m_allQueue st = []" and "m_runQueue st = []"
      and "h \<notin> fst ` set (settled st)"
  shows "fst (SQLite_getPragma drv h option st) =
           Some (case fst (db_run drv (m_db st) (getPragma_query option) None) of
                   Inl e \<Rightarrow> Inl e
                 | Inr this \<Rightarrow> Inl TypeError)
         \<and> m_db (snd (SQLite_getPragma drv h option st)) =
             snd (db_run drv (m_db st) (getPragma_query option) None)"
proof -
  from assms(4) have "map_of (settled st) h = None"
    by (simp add: map_of_eq_None_iff)
  then show ?thesis
    by (simp add: SQLite_getPragma_def tick_getPragma_query [OF assms(1-3)] map_add_def
        getPragma_result_def split: sum.splits)
qed

text \<open>
  The failing input of claim C10: \<^verbatim>\<open>getPragma('foreign_keys')\<close> on a new scheduler, on
  the driver on which \<^verbatim>\<open>PRAGMA foreign_keys\<close> yields the one row
  \<^verbatim>\<open>{foreign_keys: 1}\<close>. From that row the computation of \<^verbatim>\<open>getPragma\<close> would return
  the value 1; the method throws the \<^verbatim>\<open>TypeError\<close>, and the statement was executed by
  \<^verbatim>\<open>run\<close> (the driver of the examples counts it as its first statement).
\<close>

theorem getPragma_never_returns_witness:
  "fst (db_all pragma_driver test_db0 ''PRAGMA foreign_keys'' None) =
     Inr [Map.empty(''foreign_keys'' \<mapsto> JNumber 1)]
   \<and> getPragma_settled ''foreign_keys''
       (Resolved (Some (1, [Map.empty(''foreign_keys'' \<mapsto> JNumber 1)]))) =
     Inr (Single (Some (JNumber 1)))
   \<and> fst (SQLite_getPragma pragma_driver (1::nat) ''foreign_keys'' (new_SQLite test_db0)) =
     Some (Inl TypeError)
   \<and> m_db (snd (SQLite_getPragma pragma_driver (1::nat) ''foreign_keys'' (new_SQLite test_db0))) =
     \<lparr>in_transaction = False, is_closed = False, executed = [''PRAGMA foreign_keys'']\<rparr>"
proof -
  let ?st = "new_SQLite test_db0 :: (nat, test_db) SQLite"
  have queues: "m_transactionQueue ?st = []" "m_allQueue ?st = []" "m_runQueue ?st = []"
    "(1::nat) \<notin> fst ` set (settled ?st)"
    by (simp_all add: new_SQLite_def)
  have query: "getPragma_query ''foreign_keys'' = ''PRAGMA foreign_keys''"
    by (simp add: getPragma_query_def toLowerCase_def upper_letters_def lower_letters_def)
  have run: "db_run pragma_driver (m_db ?st) ''PRAGMA foreign_keys'' None =
      (Inr \<lparr>lastID = 1, changes = 1\<rparr>,
       \<lparr>in_transaction = False, is_closed = False, executed = [''PRAGMA foreign_keys'']\<rparr>)"
    by (simp add: new_SQLite_def pragma_driver_def test_run_def test_db0_def startsWith_def
        toLowerCase_def upper_letters_def lower_letters_def)
  have all: "fst (db_all pragma_driver test_db0 ''PRAGMA foreign_keys'' None) =
     Inr [Map.empty(''foreign_keys'' \<mapsto> JNumber 1)]"
    by (simp add: pragma_driver_def pragma_all_def test_db0_def)
  have result: "getPragma_settled ''foreign_keys''
       (Resolved (Some (1, [Map.empty(''foreign_keys'' \<mapsto> JNumber 1)]))) =
     Inr (Single (Some (JNumber 1)))"
    by (simp add: getPragma_result_def toLowerCase_def upper_letters_def lower_letters_def)
  from getPragma_never_returns [OF queues, where drv = pragma_driver and option = "''foreign_keys''"]
    query run all result
  show ?thesis by simp
qed

end
